theory Spec2Isabelle
  imports Main "HOL-Library.Sublist" "HOL-Library.AList"
begin

section \<open>Strings\<close>

text \<open>
  A JavaScript string is modelled as a list of characters. The development covers ASCII
  text: \<open>toLowerCase\<close> maps the letters A to Z, and the white space of the regular
  expression class \<open>\s\<close> is tab, line feed, vertical tab, form feed, carriage return and
  space. On strings of characters below 128 these are the functions of the source; on
  other characters the source also lower-cases letters beyond A to Z and splits at
  further kinds of space (the no-break space among them), which the functions here do
  not (the predicate \<open>isAscii\<close> below names the strings on which they agree).
\<close>

definition isSpace :: "char \<Rightarrow> bool" where
  "isSpace c = (let n = (of_char c :: nat) in (9 \<le> n \<and> n \<le> 13) \<or> n = 32)"

definition toLowerChar :: "char \<Rightarrow> char" where
  "toLowerChar c =
     (let n = (of_char c :: nat) in if 65 \<le> n \<and> n \<le> 90 then char_of (n + 32) else c)"

definition toLowerCase :: "string \<Rightarrow> string" where
  "toLowerCase s = map toLowerChar s"

text \<open>\<open>t.includes(w)\<close>: \<open>w\<close> occurs in \<open>t\<close> as a contiguous run.\<close>

fun includes_str :: "string \<Rightarrow> string \<Rightarrow> bool" where
  "includes_str [] w = (w = [])"
| "includes_str (c # cs) w = (prefix w (c # cs) \<or> includes_str cs w)"

text \<open>
  \<open>s.split(/\s+/)\<close>: the pieces between maximal runs of white space. A string that
  starts or ends with white space yields an empty first or last piece, and the empty
  string yields one empty piece.
\<close>

function splitWs :: "string \<Rightarrow> string list" where
  "splitWs s =
     (let w = takeWhile (\<lambda>c. \<not> isSpace c) s;
          r = dropWhile (\<lambda>c. \<not> isSpace c) s
      in if r = [] then [w] else w # splitWs (dropWhile isSpace r))"
  by pat_completeness auto
termination
proof (relation "measure length")
  show "wf (measure length)" by simp
next
  fix s :: string and w r
  assume r: "r = dropWhile (\<lambda>c. \<not> isSpace c) s" and ne: "r \<noteq> []"
  from ne obtain c cs where rc: "r = c # cs" by (cases r) auto
  from r rc have "dropWhile (\<lambda>c. \<not> isSpace c) s = c # cs" by simp
  then have "isSpace c" by (simp add: dropWhile_eq_Cons_conv)
  then have "length (dropWhile isSpace r) \<le> length cs"
    using rc by (simp add: length_dropWhile_le)
  moreover have "length r \<le> length s" using r by (simp add: length_dropWhile_le)
  ultimately show "(dropWhile isSpace r, s) \<in> measure length" using rc by simp
qed

declare splitWs.simps [simp del]

section \<open>Query matching (search.ts)\<close>

definition STOPWORDS :: "string list" where
  "STOPWORDS = [''a'', ''an'', ''the'', ''in'', ''at'', ''for'', ''and'', ''or'', ''of'',
                 ''with'', ''to'', ''on'', ''is'']"

text \<open>
  \<open>matchesQuery(query, title, extraText)\<close>. The score is a non-negative whole number;
  it is an \<open>int\<close> here so that the subtraction of the source is not truncated.
\<close>

definition matchesQuery :: "string \<Rightarrow> string \<Rightarrow> string \<Rightarrow> int" where
  "matchesQuery query title extraText =
     (let ws = filter (\<lambda>w. length w > 1 \<and> w \<notin> set STOPWORDS) (splitWs (toLowerCase query))
      in if length ws = 0 then 1
         else
           let titleLower = toLowerCase title;
               fullText = titleLower @ '' '' @ toLowerCase extraText;
               titleMatches = length (filter (\<lambda>w. includes_str titleLower w) ws);
               fullMatches = length (filter (\<lambda>w. includes_str fullText w) ws)
           in if fullMatches < length ws then 0
              else int titleMatches * 2 + (int fullMatches - int titleMatches))"

section \<open>Deduplication (search.ts)\<close>

record JobResult =
  title :: string
  company :: string
  location :: string
  isRemote :: bool
  jobUrl :: string
  source :: string
  datePosted :: "string option"
  salary :: "string option"
  description :: string

text \<open>
  \<open>s.replace(/\?.*$/, "")\<close>: the match starts at the first question mark that is
  followed by no line terminator up to the end of the string (\<open>.\<close> does not match a
  line terminator and \<open>$\<close> is the end of the input), and everything from there on is
  removed.
\<close>

definition isLineTerminator :: "char \<Rightarrow> bool" where
  "isLineTerminator c = (let n = (of_char c :: nat) in n = 10 \<or> n = 13)"

fun stripQuery :: "string \<Rightarrow> string" where
  "stripQuery [] = []"
| "stripQuery (c # cs) =
     (if c = CHR ''?'' \<and> \<not> list_ex isLineTerminator cs then [] else c # stripQuery cs)"

text \<open>\<open>s.replace(/\/+$/, "")\<close>: the slashes at the end of the string are removed.\<close>

definition stripTrailingSlashes :: "string \<Rightarrow> string" where
  "stripTrailingSlashes s = rev (dropWhile (\<lambda>c. c = CHR ''/'') (rev s))"

definition dedupeKey :: "JobResult \<Rightarrow> string" where
  "dedupeKey j = toLowerCase (stripTrailingSlashes (stripQuery (jobUrl j)))"

text \<open>
  The filter of \<open>dedupe\<close> with its mutable set \<open>seen\<close>: the set is threaded through
  the traversal.
\<close>

fun dedupeFrom :: "string set \<Rightarrow> JobResult list \<Rightarrow> JobResult list" where
  "dedupeFrom seen [] = []"
| "dedupeFrom seen (j # js) =
     (let key = dedupeKey j
      in if key \<in> seen then dedupeFrom seen js else j # dedupeFrom (insert key seen) js)"

definition dedupe :: "JobResult list \<Rightarrow> JobResult list" where
  "dedupe jobs = dedupeFrom {} jobs"

subsection \<open>The score as the specification words it\<close>




section \<open>Documents (review.ts)\<close>

text \<open>
  The profile is what \<open>JSON.parse\<close> returns: a tree of objects, arrays and scalars with
  no sharing between its parts. A property key of JavaScript is a string; the keys that
  are the decimal spelling of a natural number (\<open>"0"\<close>, \<open>"12"\<close>, no leading zero) are
  the ones that address array elements, so a property key is modelled as either such a
  number (\<open>Idx\<close>) or any other string (\<open>Name\<close>). Numbers of a document are whole
  numbers here, and the order of an object's keys is the order of its list.

  \<open>JUndefined\<close> is the value \<open>undefined\<close>; in an array it also stands for an empty
  slot. An array carries its elements and, as every JavaScript object may, further named
  properties (none after parsing).
\<close>

datatype pkey = Idx nat | Name string

datatype json =
    JUndefined
  | JNull
  | JBool bool
  | JNum int
  | JStr string
  | JArr "json list" "(pkey \<times> json) list"
  | JObj "(pkey \<times> json) list"

text \<open>A segment of a path, as \<open>resolvePath\<close> collects it: a string or a number.\<close>

datatype key = KStr string | KNum nat

definition isDigit :: "char \<Rightarrow> bool" where
  "isDigit c = (let n = (of_char c :: nat) in 48 \<le> n \<and> n \<le> 57)"

text \<open>
  \<open>parseInt\<close> on a run of decimal digits. The number of the source is floating point:
  it is the natural number computed here when that is below \<open>2^53\<close>, and a rounded
  one above. The predicate \<open>plainPath\<close> below bounds the indices of a path
  accordingly.
\<close>

definition parseInt :: "string \<Rightarrow> nat" where
  "parseInt ds = foldl (\<lambda>a c. 10 * a + (of_char c - 48)) 0 ds"

definition canonicalNumeric :: "string \<Rightarrow> nat option" where
  "canonicalNumeric s =
     (if s \<noteq> [] \<and> list_all isDigit s \<and> (length s = 1 \<or> hd s \<noteq> CHR ''0'')
      then Some (parseInt s) else None)"

text \<open>The property key that a path segment denotes when it is used in \<open>x[key]\<close>.\<close>

fun toPropertyKey :: "key \<Rightarrow> pkey" where
  "toPropertyKey (KNum n) = Idx n"
| "toPropertyKey (KStr s) = (case canonicalNumeric s of Some n \<Rightarrow> Idx n | None \<Rightarrow> Name s)"

text \<open>An array index is a key below \<open>2^32 - 1\<close>; other keys of an array are named properties.\<close>

fun arrayIndex :: "pkey \<Rightarrow> nat option" where
  "arrayIndex (Idx i) = (if i < 4294967295 then Some i else None)"
| "arrayIndex (Name n) = None"

definition lookup :: "(pkey \<times> json) list \<Rightarrow> pkey \<Rightarrow> json" where
  "lookup kvs k = (case map_of kvs k of None \<Rightarrow> JUndefined | Some v \<Rightarrow> v)"

text \<open>
  \<open>x[k]\<close> for a value \<open>x\<close> that is neither \<open>null\<close> nor \<open>undefined\<close>: the own
  properties of objects, arrays (elements and \<open>length\<close>) and strings (characters and
  \<open>length\<close>). Properties inherited from the built-in prototypes (such as
  \<open>toString\<close>, \<open>map\<close> of an array, and the accessor \<open>__proto__\<close>) are not
  modelled: for a key that names one of them the source finds a value where this function
  gives \<open>undefined\<close>. The predicate \<open>plainPath\<close> below names the paths without
  such keys. On \<open>null\<close> and \<open>undefined\<close> the access raises in
  JavaScript; \<open>resolvePath\<close> never gets there, and the value given here is the one of
  optional chaining.
\<close>

fun getProp :: "json \<Rightarrow> pkey \<Rightarrow> json" where
  "getProp (JObj kvs) k = lookup kvs k"
| "getProp (JArr xs ps) k =
     (case arrayIndex k of
        Some i \<Rightarrow> if i < length xs then xs ! i else JUndefined
      | None \<Rightarrow> if k = Name ''length'' then JNum (int (length xs)) else lookup ps k)"
| "getProp (JStr s) k =
     (case k of
        Idx i \<Rightarrow> if i < length s then JStr [s ! i] else JUndefined
      | Name n \<Rightarrow> if n = ''length'' then JNum (int (length s)) else JUndefined)"
| "getProp v k = JUndefined"

text \<open>\<open>x == null\<close> and \<open>!x\<close>.\<close>

fun nullish :: "json \<Rightarrow> bool" where
  "nullish JUndefined = True"
| "nullish JNull = True"
| "nullish v = False"

fun falsy :: "json \<Rightarrow> bool" where
  "falsy JUndefined = True"
| "falsy JNull = True"
| "falsy (JBool b) = (\<not> b)"
| "falsy (JNum n) = (n = 0)"
| "falsy (JStr s) = (s = [])"
| "falsy v = False"

section \<open>Path resolution (review.ts)\<close>

definition isDelim :: "char \<Rightarrow> bool" where
  "isDelim c = (c = CHR ''['' \<or> c = CHR ''.'' \<or> c = CHR '']'')"

text \<open>
  The loop over \<open>/([^[.\]]+)|\[(\d+)\]/g\<close>. At a character that is none of \<open>[ . ]\<close>
  the first alternative takes the longest run of such characters; at \<open>[\<close> the second
  alternative needs digits and a closing bracket, and yields their number; anywhere else,
  and at a \<open>[\<close> that does not open such a group, the search moves on by one character.
\<close>

function tokenize :: "string \<Rightarrow> key list" where
  "tokenize [] = []"
| "tokenize (c # cs) =
     (if \<not> isDelim c then
        KStr (c # takeWhile (\<lambda>x. \<not> isDelim x) cs) # tokenize (dropWhile (\<lambda>x. \<not> isDelim x) cs)
      else if c = CHR ''['' \<and> takeWhile isDigit cs \<noteq> []
              \<and> (case dropWhile isDigit cs of [] \<Rightarrow> False | r # rest \<Rightarrow> r = CHR '']'')
      then KNum (parseInt (takeWhile isDigit cs)) # tokenize (tl (dropWhile isDigit cs))
      else tokenize cs)"
  by pat_completeness auto
termination
proof (relation "measure length")
  show "wf (measure length)" by simp
next
  fix c :: char and cs :: string
  have "length (dropWhile (\<lambda>x. \<not> isDelim x) cs) \<le> length cs" by (rule length_dropWhile_le)
  then show "(dropWhile (\<lambda>x. \<not> isDelim x) cs, c # cs) \<in> measure length" by simp
next
  fix c :: char and cs :: string
  have "length (tl (dropWhile isDigit cs)) \<le> length (dropWhile isDigit cs)" by simp
  also have "\<dots> \<le> length cs" by (rule length_dropWhile_le)
  finally show "(tl (dropWhile isDigit cs), c # cs) \<in> measure length" by simp
next
  fix c :: char and cs :: string
  show "(cs, c # cs) \<in> measure length" by simp
qed

declare tokenize.simps [simp del]

text \<open>
  What \<open>resolvePath\<close> returns. In the source \<open>parent\<close> is a reference into the
  profile; since the profile is a tree, the reference is modelled by the value it points
  to together with the keys that lead to it from the root (\<open>parentAt\<close>).
\<close>

record Resolved =
  parentAt :: "pkey list"
  parent :: json
  key :: key

text \<open>The \<open>for\<close> loop of \<open>resolvePath\<close> over all parts but the last.\<close>

fun walk :: "json \<Rightarrow> key list \<Rightarrow> json option" where
  "walk cur [] = Some cur"
| "walk cur (p # ps) = (if nullish cur then None else walk (getProp cur (toPropertyKey p)) ps)"

definition resolvePath :: "json \<Rightarrow> string \<Rightarrow> Resolved option" where
  "resolvePath obj path =
     (let parts = tokenize path
      in if length parts = 0 then None
         else case walk obj (butlast parts) of
                None \<Rightarrow> None
              | Some cur \<Rightarrow>
                  if nullish cur then None
                  else Some \<lparr>parentAt = map toPropertyKey (butlast parts), parent = cur,
                             key = last parts\<rparr>)"

section \<open>Applying one suggestion (review.ts)\<close>

datatype SuggestionType = Rewrite | Restructure | Add | Remove

record Suggestion =
  id' :: int
  section' :: string
  type' :: SuggestionType
  current :: string
  suggested :: string
  reason :: string
  principle :: string

datatype error = TypeError | RangeError | Error string

text \<open>
  \<open>parent[key] = suggested\<close> in the strict mode of a module. An object gets or
  overwrites the property. An array gets the element, growing by empty slots when the
  index is past its end; a named property is stored beside the elements; an assignment
  to \<open>length\<close> resizes the array or raises \<open>RangeError\<close>, depending on the number
  that the string converts to: that conversion is the parameter \<open>toLen\<close>, which gives
  the new length for the strings that denote one. On a string, number or boolean the
  assignment raises \<open>TypeError\<close>.
\<close>

definition assign :: "(string \<Rightarrow> nat option) \<Rightarrow> json \<Rightarrow> pkey \<Rightarrow> string \<Rightarrow> error + json" where
  "assign toLen par k v =
     (case par of
        JObj kvs \<Rightarrow> Inr (JObj (AList.update k (JStr v) kvs))
      | JArr xs ps \<Rightarrow>
          (case arrayIndex k of
             Some i \<Rightarrow>
               Inr (JArr (if i < length xs then xs[i := JStr v]
                          else xs @ replicate (i - length xs) JUndefined @ [JStr v]) ps)
           | None \<Rightarrow>
               if k = Name ''length'' then
                 (case toLen v of
                    None \<Rightarrow> Inl RangeError
                  | Some n \<Rightarrow> Inr (JArr (take n xs @ replicate (n - length xs) JUndefined) ps))
               else Inr (JArr xs (AList.update k (JStr v) ps)))
      | _ \<Rightarrow> Inl TypeError)"

text \<open>
  \<open>delete parent[key]\<close> in strict mode. An object loses the property; an array element
  becomes an empty slot (the length stays); the \<open>length\<close> of an array and the
  characters and \<open>length\<close> of a string cannot be deleted, which raises
  \<open>TypeError\<close>; deleting anything else does nothing.
\<close>

definition deleteProp :: "json \<Rightarrow> pkey \<Rightarrow> error + json" where
  "deleteProp par k =
     (case par of
        JObj kvs \<Rightarrow> Inr (JObj (AList.delete k kvs))
      | JArr xs ps \<Rightarrow>
          (case arrayIndex k of
             Some i \<Rightarrow> Inr (JArr (if i < length xs then xs[i := JUndefined] else xs) ps)
           | None \<Rightarrow>
               if k = Name ''length'' then Inl TypeError
               else Inr (JArr xs (AList.delete k ps)))
      | JStr s \<Rightarrow>
          (case k of
             Idx i \<Rightarrow> if i < length s then Inl TypeError else Inr par
           | Name n \<Rightarrow> if n = ''length'' then Inl TypeError else Inr par)
      | _ \<Rightarrow> Inr par)"

text \<open>\<open>xs.splice(n, 1)\<close>: the element at \<open>n\<close> is removed when there is one.\<close>

definition splice1 :: "json list \<Rightarrow> nat \<Rightarrow> json list" where
  "splice1 xs n = (if n < length xs then take n xs @ drop (Suc n) xs else xs)"

text \<open>
  The statement that \<open>applySuggestion\<close> runs on the resolved parent: splice, delete or
  assign.
\<close>

definition mutateParent ::
    "(string \<Rightarrow> nat option) \<Rightarrow> Suggestion \<Rightarrow> key \<Rightarrow> json \<Rightarrow> error + json" where
  "mutateParent toLen suggestion k par =
     (if type' suggestion = Remove then
        (case (par, k) of
           (JArr xs ps, KNum n) \<Rightarrow> Inr (JArr (splice1 xs n) ps)
         | _ \<Rightarrow> deleteProp par (toPropertyKey k))
      else assign toLen par (toPropertyKey k) (suggested suggestion))"

text \<open>
  The effect on the document of a mutation made through a reference: the value found
  along the keys is mutated, and every container on the way holds the mutated part in
  place of the old one. A scalar on the way is a copy and changes nothing
  (\<open>putProp\<close> writes only into a property or element that exists).
\<close>

fun putProp :: "json \<Rightarrow> pkey \<Rightarrow> json \<Rightarrow> json" where
  "putProp (JObj kvs) k v = (if k \<in> fst ` set kvs then JObj (AList.update k v kvs) else JObj kvs)"
| "putProp (JArr xs ps) k v =
     (case arrayIndex k of
        Some i \<Rightarrow> if i < length xs then JArr (xs[i := v]) ps else JArr xs ps
      | None \<Rightarrow>
          if k \<noteq> Name ''length'' \<and> k \<in> fst ` set ps then JArr xs (AList.update k v ps)
          else JArr xs ps)"
| "putProp d k v = d"

fun mutateAt :: "json \<Rightarrow> pkey list \<Rightarrow> (json \<Rightarrow> error + json) \<Rightarrow> error + json" where
  "mutateAt d [] f = f d"
| "mutateAt d (k # ks) f =
     (case mutateAt (getProp d k) ks f of
        Inl e \<Rightarrow> Inl e
      | Inr c \<Rightarrow> Inr (putProp d k c))"

definition applySuggestion ::
    "(string \<Rightarrow> nat option) \<Rightarrow> Suggestion \<Rightarrow> json \<Rightarrow> error + json" where
  "applySuggestion toLen suggestion profile =
     (case resolvePath profile (section' suggestion) of
        None \<Rightarrow> Inr profile
      | Some resolved \<Rightarrow>
          mutateAt profile (parentAt resolved) (mutateParent toLen suggestion (key resolved)))"

section \<open>Files and batch application (review.ts)\<close>

text \<open>
  The files that \<open>applyByIds\<close> reads and writes. A file is missing, holds text that
  \<open>JSON.parse\<close> rejects, or holds the text of a value; a suggestions file that parses
  is taken to hold a \<open>SuggestionsFile\<close>, as its TypeScript type says. There is one
  suggestions file and one changelog per output directory. A changelog is the list of its
  entries, each the action, section, principle and type of a line (the time stamp of a
  line is left out). Creating a missing output directory, which \<open>suggestionsDir\<close> does
  on the way, is not modelled.

  \<open>events\<close> records, in order, what a call has done: the copy of the profile to the
  backup path, each return of \<open>applySuggestion\<close> (the profile in memory has been
  mutated), each write of a changelog, and the write of the profile.
\<close>

datatype 'a file_state = Missing | Unparseable | Content 'a

record SuggestionsFile =
  generatedAt :: string
  jobId :: "string option"
  suggestions :: "Suggestion list"

record ApplyResult =
  applied :: "int list"
  skipped :: "int list"
  backupCreated :: bool

datatype event =
    BackupCopied
  | SuggestionApplied int
  | ChangelogWritten string
  | ProfileWritten

type_synonym ChangelogEntry = "string \<times> string \<times> string \<times> SuggestionType"

record world =
  suggestionsFiles :: "string \<Rightarrow> SuggestionsFile file_state"
  changelogs :: "string \<Rightarrow> ChangelogEntry list option"
  profileFile :: "json file_state"
  backupFile :: "json file_state"
  events :: "event list"

text \<open>
  The directory of a namespace below the output directory: \<open>review\<close> when no job
  identifier is given (an empty one counts as none).
\<close>

definition suggestionsDir :: "string option \<Rightarrow> string" where
  "suggestionsDir jid = (case jid of None \<Rightarrow> ''review'' | Some j \<Rightarrow> if j = [] then ''review'' else j)"

definition loadSuggestions :: "string option \<Rightarrow> world \<Rightarrow> SuggestionsFile option" where
  "loadSuggestions jid w =
     (case suggestionsFiles w (suggestionsDir jid) of
        Missing \<Rightarrow> None
      | Unparseable \<Rightarrow> None
      | Content d \<Rightarrow> Some d)"

text \<open>\<open>loadProfile\<close> returns \<open>null\<close> for a missing file and for one that does not parse.\<close>

definition loadProfile :: "world \<Rightarrow> json" where
  "loadProfile w =
     (case profileFile w of
        Missing \<Rightarrow> JNull
      | Unparseable \<Rightarrow> JNull
      | Content v \<Rightarrow> v)"

definition existsProfile :: "world \<Rightarrow> bool" where
  "existsProfile w = (profileFile w \<noteq> Missing)"

definition copyBackup :: "world \<Rightarrow> world" where
  "copyBackup w = w\<lparr>backupFile := profileFile w, events := events w @ [BackupCopied]\<rparr>"

definition logChange :: "Suggestion \<Rightarrow> string \<Rightarrow> string option \<Rightarrow> world \<Rightarrow> world" where
  "logChange suggestion act jid w =
     (let dir = suggestionsDir jid;
          entry = (act, section' suggestion, principle suggestion, type' suggestion);
          existing = (case changelogs w dir of None \<Rightarrow> [] | Some es \<Rightarrow> es)
      in w\<lparr>changelogs := (changelogs w)(dir := Some (existing @ [entry])),
            events := events w @ [ChangelogWritten dir]\<rparr>)"

text \<open>
  What \<open>JSON.parse\<close> reads back from \<open>JSON.stringify(v)\<close>: an empty slot or
  \<open>undefined\<close> in an array is written as \<open>null\<close>, a property whose value is
  \<open>undefined\<close> and the named properties of an array are not written.
\<close>

fun reparsed :: "json \<Rightarrow> json" where
  "reparsed JUndefined = JNull"
| "reparsed (JArr xs ps) = JArr (map reparsed xs) []"
| "reparsed (JObj kvs) =
     JObj (map (\<lambda>kv. (fst kv, reparsed (snd kv))) (filter (\<lambda>kv. snd kv \<noteq> JUndefined) kvs))"
| "reparsed v = v"

text \<open>
  \<open>writeProfileAtomic\<close>: the text goes to a temporary file that is then renamed to the
  profile's path, so the profile file changes in one step. (Stringifying \<open>undefined\<close>
  itself yields no JSON text.)
\<close>

definition writeProfileAtomic :: "json \<Rightarrow> world \<Rightarrow> world" where
  "writeProfileAtomic profile w =
     w\<lparr>profileFile := (if profile = JUndefined then Unparseable else Content (reparsed profile)),
       events := events w @ [ProfileWritten]\<rparr>"

datatype ids = All | Ids "int list"

text \<open>\<open>ids === "all" || ids.includes(s.id)\<close>\<close>

fun selected :: "ids \<Rightarrow> Suggestion \<Rightarrow> bool" where
  "selected All s = True"
| "selected (Ids xs) s = (id' s \<in> set xs)"

text \<open>The first loop of \<open>applyByIds\<close>: \<open>toApply\<close> and \<open>skipped\<close>, filled in order.\<close>

fun partitionSuggestions :: "ids \<Rightarrow> Suggestion list \<Rightarrow> Suggestion list \<times> int list" where
  "partitionSuggestions sel [] = ([], [])"
| "partitionSuggestions sel (s # ss) =
     (let (toApply, skip) = partitionSuggestions sel ss
      in if selected sel s then (s # toApply, skip) else (toApply, id' s # skip))"

text \<open>
  The second loop: each suggestion is applied to the profile in memory and logged. An
  exception of \<open>applySuggestion\<close> ends the call; what was done before stays done.
\<close>

fun applyLoop ::
    "(string \<Rightarrow> nat option) \<Rightarrow> Suggestion list \<Rightarrow> json \<Rightarrow> string option \<Rightarrow> world
      \<Rightarrow> (error + json) \<times> world" where
  "applyLoop toLen [] profile jid w = (Inr profile, w)"
| "applyLoop toLen (s # ss) profile jid w =
     (case applySuggestion toLen s profile of
        Inl e \<Rightarrow> (Inl e, w)
      | Inr profile' \<Rightarrow>
          applyLoop toLen ss profile' jid
            (logChange s ''approved'' jid (w\<lparr>events := events w @ [SuggestionApplied (id' s)]\<rparr>)))"

definition noProfileMessage :: string where
  "noProfileMessage = ''No profile found. Run `profile init` to create one.''"

definition emptyResult :: ApplyResult where
  "emptyResult = \<lparr>applied = [], skipped = [], backupCreated = False\<rparr>"

definition applyByIds ::
    "(string \<Rightarrow> nat option) \<Rightarrow> ids \<Rightarrow> string option \<Rightarrow> world \<Rightarrow> (error + ApplyResult) \<times> world" where
  "applyByIds toLen sel jid w =
     (case loadSuggestions jid w of
        None \<Rightarrow> (Inr emptyResult, w)
      | Some data \<Rightarrow>
          if length (suggestions data) = 0 then (Inr emptyResult, w)
          else
            let profile = loadProfile w
            in if falsy profile then (Inl (Error noProfileMessage), w)
               else
                 let (toApply, skip) = partitionSuggestions sel (suggestions data);
                     made = (length toApply > 0 \<and> existsProfile w);
                     w1 = (if made then copyBackup w else w)
                 in case applyLoop toLen toApply profile jid w1 of
                      (Inl e, w2) \<Rightarrow> (Inl e, w2)
                    | (Inr profile', w2) \<Rightarrow>
                        (Inr \<lparr>applied = map id' toApply, skipped = skip, backupCreated = made\<rparr>,
                         if length toApply > 0 then writeProfileAtomic profile' w2 else w2))"

section \<open>Notions used to state the properties\<close>

text \<open>
  The value found in a document along a list of property keys (the specification's
  \<open>get(d, p)\<close>), with \<open>undefined\<close> below anything that has no such property; and the
  keys that a path string denotes.
\<close>

fun valueAt :: "json \<Rightarrow> pkey list \<Rightarrow> json" where
  "valueAt d [] = d"
| "valueAt d (k # ks) = valueAt (getProp d k) ks"

definition pathKeys :: "string \<Rightarrow> pkey list" where
  "pathKeys p = map toPropertyKey (tokenize p)"

fun isContainer :: "json \<Rightarrow> bool" where
  "isContainer (JObj kvs) = True"
| "isContainer (JArr xs ps) = True"
| "isContainer v = False"

text \<open>
  The target of a resolved path lies in a container of the document, where an assignment
  stores the value and changes nothing else: the parent is an object (the key may be
  new); or it is an array and the key is an index below its length, or the name of a
  property other than \<open>length\<close> (stored beside the elements).
\<close>

fun targetInside :: "json \<Rightarrow> pkey \<Rightarrow> bool" where
  "targetInside (JObj kvs) k = True"
| "targetInside (JArr xs ps) k =
     (case arrayIndex k of Some i \<Rightarrow> i < length xs | None \<Rightarrow> k \<noteq> Name ''length'')"
| "targetInside v k = False"

text \<open>
  The names of the properties that the values of a document inherit from the built-in
  prototypes of JavaScript (of objects, arrays, strings, numbers and booleans). Since
  \<open>getProp\<close> reads own properties only, it agrees with \<open>x[k]\<close> of the source on
  the keys that are not in this list; the list errs on the side of naming too much (it
  includes the names that only some engines or editions define).
\<close>

definition builtinPropertyNames :: "string list" where
  "builtinPropertyNames =
     [''constructor'', ''hasOwnProperty'', ''isPrototypeOf'', ''propertyIsEnumerable'',
      ''toLocaleString'', ''toString'', ''valueOf'', ''__proto__'', ''__defineGetter__'',
      ''__defineSetter__'', ''__lookupGetter__'', ''__lookupSetter__'',
      ''at'', ''concat'', ''copyWithin'', ''entries'', ''every'', ''fill'', ''filter'',
      ''find'', ''findIndex'', ''findLast'', ''findLastIndex'', ''flat'', ''flatMap'',
      ''forEach'', ''group'', ''groupToMap'', ''includes'', ''indexOf'', ''join'', ''keys'',
      ''lastIndexOf'', ''map'', ''pop'', ''push'', ''reduce'', ''reduceRight'', ''reverse'',
      ''shift'', ''slice'', ''some'', ''sort'', ''splice'', ''toReversed'', ''toSorted'',
      ''toSpliced'', ''unshift'', ''values'', ''with'',
      ''anchor'', ''big'', ''blink'', ''bold'', ''charAt'', ''charCodeAt'', ''codePointAt'',
      ''endsWith'', ''fixed'', ''fontcolor'', ''fontsize'', ''isWellFormed'', ''italics'',
      ''link'', ''localeCompare'', ''match'', ''matchAll'', ''normalize'', ''padEnd'',
      ''padStart'', ''repeat'', ''replace'', ''replaceAll'', ''search'', ''small'', ''split'',
      ''startsWith'', ''strike'', ''sub'', ''substr'', ''substring'', ''sup'',
      ''toLocaleLowerCase'', ''toLocaleUpperCase'', ''toLowerCase'', ''toUpperCase'',
      ''toWellFormed'', ''trim'', ''trimEnd'', ''trimLeft'', ''trimRight'', ''trimStart'',
      ''toExponential'', ''toFixed'', ''toPrecision'']"

text \<open>
  A plain segment of a path: a name that is not the name of an inherited property, or an
  index below \<open>2^53\<close>, where \<open>parseInt\<close> of the source (a floating-point number)
  is the natural number that \<open>parseInt\<close> gives here. A plain path has plain segments
  only. On plain paths the document model reads and writes what the source does.
\<close>

fun plainSegment :: "key \<Rightarrow> bool" where
  "plainSegment (KStr s) = (s \<notin> set builtinPropertyNames)"
| "plainSegment (KNum n) = (n < 9007199254740992)"

definition plainPath :: "string \<Rightarrow> bool" where
  "plainPath p = list_all plainSegment (tokenize p)"

text \<open>
  An ASCII string: every character is below 128. On these, \<open>toLowerCase\<close> of the
  source changes the letters A to Z only, as \<open>toLowerCase\<close> does here.
\<close>

definition isAscii :: "string \<Rightarrow> bool" where
  "isAscii s = list_all (\<lambda>c. (of_char c :: nat) < 128) s"

text \<open>
  Lower-casing of a character given by the table of the 26 letters, for stating what
  \<open>toLowerCase\<close> computes.
\<close>

definition lowerLetter :: "char \<Rightarrow> char" where
  "lowerLetter c =
     (case map_of (zip ''ABCDEFGHIJKLMNOPQRSTUVWXYZ'' ''abcdefghijklmnopqrstuvwxyz'') c of
        None \<Rightarrow> c
      | Some l \<Rightarrow> l)"

text \<open>
  The suggestions of a list applied one after the other to a profile, up to the first
  exception: what the second loop of \<open>applyByIds\<close> does to the profile in memory.
\<close>

fun applyAll :: "(string \<Rightarrow> nat option) \<Rightarrow> Suggestion list \<Rightarrow> json \<Rightarrow> error + json" where
  "applyAll toLen [] profile = Inr profile"
| "applyAll toLen (s # ss) profile =
     (case applySuggestion toLen s profile of
        Inl e \<Rightarrow> Inl e
      | Inr profile' \<Rightarrow> applyAll toLen ss profile')"

text \<open>What a call has added to the record of events.\<close>

definition newEvents :: "world \<Rightarrow> world \<Rightarrow> event list" where
  "newEvents w w' = drop (length (events w)) (events w')"

section \<open>The fixtures of review.test.ts\<close>

definition TEST_PROFILE :: json where
  "TEST_PROFILE =
     JObj [(Name ''name'', JStr ''Test User''),
           (Name ''email'', JStr ''test@example.com''),
           (Name ''summary'', JStr ''Original summary text''),
           (Name ''experience'',
              JArr [JObj [(Name ''company'', JStr ''Company A''),
                          (Name ''title'', JStr ''Engineer''),
                          (Name ''dates'', JStr ''2020 - 2024''),
                          (Name ''bullets'',
                             JArr [JStr ''First bullet'', JStr ''Old bullet'', JStr ''Third bullet''] [])],
                    JObj [(Name ''company'', JStr ''Company B''),
                          (Name ''title'', JStr ''Junior Dev''),
                          (Name ''dates'', JStr ''2018 - 2020''),
                          (Name ''bullets'', JArr [JStr ''Remove me'', JStr ''Keep me''] [])]] []),
           (Name ''skills'',
              JArr [JObj [(Name ''category'', JStr ''Languages''),
                          (Name ''items'',
                             JArr [JStr ''Go'', JStr ''Python'', JStr ''TypeScript'', JStr ''SQL''] [])]] [])]"

definition makeSuggestion :: "string \<Rightarrow> SuggestionType \<Rightarrow> string \<Rightarrow> Suggestion" where
  "makeSuggestion p t v =
     \<lparr>id' = 99, section' = p, type' = t, current = '''', suggested = v, reason = ''test'',
      principle = ''test''\<rparr>"

text \<open>A conversion to an array length under which no string denotes one.\<close>

definition noLength :: "string \<Rightarrow> nat option" where
  "noLength v = None"

definition TEST_SUGGESTIONS :: SuggestionsFile where
  "TEST_SUGGESTIONS =
     \<lparr>generatedAt = ''2026-01-01T00:00:00Z'',
      jobId = Some ''__test__'',
      suggestions =
        [\<lparr>id' = 1, section' = ''summary'', type' = Rewrite,
          current = ''Senior software engineer with 6 years of experience building scalable backend systems and data pipelines'',
          suggested = ''Backend-focused engineer who reduced deploy times 80% and built pipelines processing 2M events/day'',
          reason = ''More specific and measurable'', principle = ''6-second scan''\<rparr>,
         \<lparr>id' = 2, section' = ''experience[0].bullets[1]'', type' = Rewrite,
          current = ''Old bullet'', suggested = ''New XYZ bullet with metrics'',
          reason = ''Use XYZ formula'', principle = ''XYZ formula''\<rparr>,
         \<lparr>id' = 3, section' = ''experience[1].bullets[0]'', type' = Remove,
          current = ''Remove me'', suggested = '''',
          reason = ''Weak bullet without impact'', principle = ''relevance''\<rparr>,
         \<lparr>id' = 4, section' = ''skills[0].items[2]'', type' = Rewrite,
          current = ''TypeScript'', suggested = ''TypeScript/JavaScript'',
          reason = ''More complete listing'', principle = ''keyword match''\<rparr>]\<rparr>"

text \<open>
  The files as the tests of \<open>applyByIds\<close> set them up: the suggestions of the
  namespace \<open>__test__\<close>, the test profile, no backup and no changelog. The second world
  is the same without the profile file.
\<close>

definition testWorld :: world where
  "testWorld =
     \<lparr>suggestionsFiles = (\<lambda>dir. if dir = ''__test__'' then Content TEST_SUGGESTIONS else Missing),
      changelogs = (\<lambda>dir. None),
      profileFile = Content TEST_PROFILE,
      backupFile = Missing,
      events = []\<rparr>"

definition testWorldNoProfile :: world where
  "testWorldNoProfile = testWorld\<lparr>profileFile := Missing\<rparr>"

text \<open>Two results with the URLs of the deduplication example.\<close>

definition job1 :: JobResult where
  "job1 = \<lparr>title = ''Engineer'', company = ''X'', location = ''Remote'', isRemote = True,
            jobUrl = ''https://x.com/job/1?ref=abc'', source = ''linkedin'', datePosted = None,
            salary = None, description = ''first''\<rparr>"

definition job2 :: JobResult where
  "job2 = \<lparr>title = ''Engineer'', company = ''X'', location = ''Remote'', isRemote = True,
            jobUrl = ''https://x.com/job/1/'', source = ''greenhouse'', datePosted = None,
            salary = None, description = ''second''\<rparr>"

text \<open>
  A third result for the same posting, whose URL differs from the first in case, in its
  query string and in the number of trailing slashes.
\<close>

definition job3 :: JobResult where
  "job3 = \<lparr>title = ''Engineer'', company = ''X'', location = ''Remote'', isRemote = True,
            jobUrl = ''HTTPS://X.com/Job/1//?Ref=ABC'', source = ''lever'', datePosted = None,
            salary = None, description = ''third''\<rparr>"


section \<open>Properties of the search functions\<close>





















text \<open>
  C8. The first example of the claim does not hold: the token \<open>senior\<close> occurs neither
  in the title nor in the empty extra text, so the query scores 0.
\<close>

theorem matchesQuery_senior_counterexample:
  "\<not> (matchesQuery ''senior backend engineer'' ''Backend Engineer'' '''' > 0
      \<and> matchesQuery ''blockchain'' ''Backend Engineer'' '''' = 0)"
proof -
  have "matchesQuery ''senior backend engineer'' ''Backend Engineer'' '''' = 0"
    by code_simp
  then show ?thesis by simp
qed

text \<open>
  C8, as amended. Both queries of the claim score exactly 0 against the title
  \<open>Backend Engineer\<close> with empty extra text; the query \<open>backend engineer\<close>, whose
  tokens all occur in the title, scores 4.
\<close>

theorem matchesQuery_examples:
  "matchesQuery ''senior backend engineer'' ''Backend Engineer'' '''' = 0
   \<and> matchesQuery ''blockchain'' ''Backend Engineer'' '''' = 0
   \<and> matchesQuery ''backend engineer'' ''Backend Engineer'' '''' = 4"
  by code_simp

lemma dedupeFrom_nths:
  "dedupeFrom seen js = nths js {i. dedupeKey (js ! i) \<notin> seen \<union> dedupeKey ` set (take i js)}"
proof (induction js arbitrary: seen)
  case Nil
  then show ?case by simp
next
  case (Cons j js)
  let ?A = "{i. dedupeKey ((j # js) ! i) \<notin> seen \<union> dedupeKey ` set (take i (j # js))}"
  have shift: "{i. Suc i \<in> ?A}
      = {i. dedupeKey (js ! i) \<notin> insert (dedupeKey j) seen \<union> dedupeKey ` set (take i js)}"
    by auto
  have zero: "0 \<in> ?A \<longleftrightarrow> dedupeKey j \<notin> seen" by simp
  show ?case
  proof (cases "dedupeKey j \<in> seen")
    case True
    then have "insert (dedupeKey j) seen = seen" by auto
    with True show ?thesis
      using Cons.IH [of seen] by (simp only: dedupeFrom.simps Let_def nths_Cons shift zero) simp
  next
    case False
    then show ?thesis
      using Cons.IH [of "insert (dedupeKey j) seen"]
      by (simp only: dedupeFrom.simps Let_def nths_Cons shift zero) simp
  qed
qed

lemma key1: "toLowerCase (stripTrailingSlashes (stripQuery ''https://x.com/job/1?ref=abc'')) = ''https://x.com/job/1''"
  by code_simp
lemma key2: "toLowerCase (stripTrailingSlashes (stripQuery ''https://x.com/job/1/'')) = ''https://x.com/job/1''"
  by code_simp

lemma stripQuery_takeWhile:
  "\<not> list_ex isLineTerminator u \<Longrightarrow> stripQuery u = takeWhile (\<lambda>c. c \<noteq> CHR ''?'') u"
  by (induction u) auto

lemma lowerLetter_upper:
  "list_all (\<lambda>n. lowerLetter (char_of n) = char_of (n + 32)) [65..<91::nat]"
  by code_simp

lemma upper_range:
  "list_all (\<lambda>c. 65 \<le> (of_char c :: nat) \<and> (of_char c :: nat) \<le> 90) ''ABCDEFGHIJKLMNOPQRSTUVWXYZ''"
  by code_simp

lemma toLowerChar_lowerLetter: "toLowerChar c = lowerLetter c"
proof (cases "65 \<le> (of_char c :: nat) \<and> (of_char c :: nat) \<le> 90")
  case True
  then have "(of_char c :: nat) \<in> {65..<91}" by simp
  then have "(of_char c :: nat) \<in> set [65..<91]" by (simp only: set_upt)
  with lowerLetter_upper
  have "lowerLetter (char_of (of_char c :: nat)) = char_of ((of_char c :: nat) + 32)"
    unfolding list_all_iff by blast
  with True show ?thesis by (simp add: toLowerChar_def Let_def)
next
  case False
  have "c \<notin> set ''ABCDEFGHIJKLMNOPQRSTUVWXYZ''"
  proof
    assume "c \<in> set ''ABCDEFGHIJKLMNOPQRSTUVWXYZ''"
    with upper_range have "65 \<le> (of_char c :: nat) \<and> (of_char c :: nat) \<le> 90"
      unfolding list_all_iff by blast
    with False show False by simp
  qed
  moreover
  have "(map_of (zip ''ABCDEFGHIJKLMNOPQRSTUVWXYZ'' ''abcdefghijklmnopqrstuvwxyz'') c = None)
          = (c \<notin> set ''ABCDEFGHIJKLMNOPQRSTUVWXYZ'')"
    by (rule map_of_zip_is_None) simp
  ultimately
  have "map_of (zip ''ABCDEFGHIJKLMNOPQRSTUVWXYZ'' ''abcdefghijklmnopqrstuvwxyz'') c = None"
    by (rule iffD2 [rotated])
  then have "lowerLetter c = c" by (simp only: lowerLetter_def option.case)
  moreover have "toLowerChar c = c" using False by (auto simp add: toLowerChar_def Let_def)
  ultimately show ?thesis by (simp only:)
qed

lemma toLowerCase_lowerLetter: "toLowerCase s = map lowerLetter s"
  by (simp add: toLowerCase_def toLowerChar_lowerLetter)


lemma stripTrailingSlashes_append:
  assumes "s = [] \<or> last s \<noteq> CHR ''/''"
  shows "stripTrailingSlashes (s @ replicate n (CHR ''/'')) = s"
proof -
  have "dropWhile (\<lambda>c. c = CHR ''/'') (replicate n (CHR ''/'') @ rev s) = dropWhile (\<lambda>c. c = CHR ''/'') (rev s)"
    by (rule dropWhile_append2) simp
  moreover have "dropWhile (\<lambda>c. c = CHR ''/'') (rev s) = rev s"
    using assms by (cases s rule: rev_cases) auto
  ultimately show ?thesis by (simp add: stripTrailingSlashes_def)
qed

text \<open>
  C9. For results whose URLs are ASCII strings: \<open>dedupe\<close> returns the results whose key
  is not the key of an earlier result, unchanged and in input order, that is the first
  occurrence of every key and nothing else. The key of a result is its URL without the
  query string, without trailing slashes, and lower-cased: when the URL has no line
  break and the part before its first question mark is \<open>s\<close> followed by slashes, where
  \<open>s\<close> does not end in a slash, the key is \<open>s\<close> with every letter A to Z replaced by
  its lower-case letter. The two URLs of the example have the same key, so the first
  result is kept.
\<close>

theorem dedupe_keeps_first:
  assumes "list_all (\<lambda>j. isAscii (jobUrl j)) jobs"
  shows "dedupe jobs = nths jobs {i. dedupeKey (jobs ! i) \<notin> dedupeKey ` set (take i jobs)}
   \<and> (\<forall>j \<in> set jobs. \<forall>s n.
          \<not> list_ex isLineTerminator (jobUrl j)
          \<and> takeWhile (\<lambda>c. c \<noteq> CHR ''?'') (jobUrl j) = s @ replicate n (CHR ''/'')
          \<and> (s = [] \<or> last s \<noteq> CHR ''/'')
        \<longrightarrow> dedupeKey j = map lowerLetter s)
   \<and> (\<forall>a b. jobUrl a = ''https://x.com/job/1?ref=abc'' \<and> jobUrl b = ''https://x.com/job/1/''
          \<longrightarrow> dedupe [a, b] = [a])"
proof (intro conjI)
  show "dedupe jobs = nths jobs {i. dedupeKey (jobs ! i) \<notin> dedupeKey ` set (take i jobs)}"
    using dedupeFrom_nths [of "{}" jobs] by (simp add: dedupe_def)
next
  show "\<forall>j \<in> set jobs. \<forall>s n.
          \<not> list_ex isLineTerminator (jobUrl j)
          \<and> takeWhile (\<lambda>c. c \<noteq> CHR ''?'') (jobUrl j) = s @ replicate n (CHR ''/'')
          \<and> (s = [] \<or> last s \<noteq> CHR ''/'')
        \<longrightarrow> dedupeKey j = map lowerLetter s"
  proof (intro ballI allI impI)
    fix j :: JobResult and s n
    assume h: "\<not> list_ex isLineTerminator (jobUrl j)
          \<and> takeWhile (\<lambda>c. c \<noteq> CHR ''?'') (jobUrl j) = s @ replicate n (CHR ''/'')
          \<and> (s = [] \<or> last s \<noteq> CHR ''/'')"
    then have "stripQuery (jobUrl j) = s @ replicate n (CHR ''/'')"
      using stripQuery_takeWhile [of "jobUrl j"] by simp
    moreover have "stripTrailingSlashes (s @ replicate n (CHR ''/'')) = s"
      using h stripTrailingSlashes_append by blast
    ultimately show "dedupeKey j = map lowerLetter s"
      by (simp add: dedupeKey_def toLowerCase_lowerLetter)
  qed
next
  show "\<forall>a b. jobUrl a = ''https://x.com/job/1?ref=abc'' \<and> jobUrl b = ''https://x.com/job/1/''
          \<longrightarrow> dedupe [a, b] = [a]"
  proof (intro allI impI)
    fix a b :: JobResult
    assume u: "jobUrl a = ''https://x.com/job/1?ref=abc'' \<and> jobUrl b = ''https://x.com/job/1/''"
    have "dedupeKey a = ''https://x.com/job/1''" using u key1 by (simp only: dedupeKey_def)
    moreover have "dedupeKey b = ''https://x.com/job/1''" using u key2 by (simp only: dedupeKey_def)
    ultimately have "dedupeKey b = dedupeKey a" by simp
    then show "dedupe [a, b] = [a]" by (simp add: dedupe_def Let_def)
  qed
qed

text \<open>
  C9, at the two results of the example and a third one whose URL differs in case, in its
  query string and in the number of trailing slashes: the three have the same key, and
  the LinkedIn result comes first and is the one that is kept. (A string with the
  character of code 201, an accented capital letter, is not ASCII.)
\<close>

theorem dedupe_keeps_first_witness:
  "list_all (\<lambda>j. isAscii (jobUrl j)) [job1, job2, job3]
   \<and> \<not> isAscii [CHR 0xC9]
   \<and> dedupeKey job1 = ''https://x.com/job/1''
   \<and> dedupeKey job2 = ''https://x.com/job/1''
   \<and> dedupeKey job3 = ''https://x.com/job/1''
   \<and> dedupe [job1, job2, job3] = [job1]
   \<and> source (hd (dedupe [job1, job2, job3])) = ''linkedin''"
proof -
  have ascii: "list_all (\<lambda>j. isAscii (jobUrl j)) [job1, job2, job3]"
    by (simp add: isAscii_def job1_def job2_def job3_def)
  note fact = dedupe_keeps_first [OF ascii]
  from fact have keys: "\<forall>j \<in> set [job1, job2, job3]. \<forall>s n.
          \<not> list_ex isLineTerminator (jobUrl j)
          \<and> takeWhile (\<lambda>c. c \<noteq> CHR ''?'') (jobUrl j) = s @ replicate n (CHR ''/'')
          \<and> (s = [] \<or> last s \<noteq> CHR ''/'')
        \<longrightarrow> dedupeKey j = map lowerLetter s" by (rule conjunct1 [OF conjunct2])
  have k1: "dedupeKey job1 = map lowerLetter ''https://x.com/job/1''"
    using keys [rule_format, of job1 "''https://x.com/job/1''" 0]
    by (simp add: job1_def isLineTerminator_def)
  have k2: "dedupeKey job2 = map lowerLetter ''https://x.com/job/1''"
    using keys [rule_format, of job2 "''https://x.com/job/1''" 1]
    by (simp add: job2_def isLineTerminator_def)
  have k3: "dedupeKey job3 = map lowerLetter ''HTTPS://X.com/Job/1''"
    using keys [rule_format, of job3 "''HTTPS://X.com/Job/1''" "Suc (Suc 0)"]
    by (simp add: job3_def isLineTerminator_def)
  have l1: "map lowerLetter ''https://x.com/job/1'' = ''https://x.com/job/1''" by code_simp
  have l3: "map lowerLetter ''HTTPS://X.com/Job/1'' = ''https://x.com/job/1''" by code_simp
  have K1: "dedupeKey job1 = ''https://x.com/job/1''" using k1 l1 by (simp only:)
  have K2: "dedupeKey job2 = ''https://x.com/job/1''" using k2 l1 by (simp only:)
  have K3: "dedupeKey job3 = ''https://x.com/job/1''" using k3 l3 by (simp only:)
  have d: "dedupe [job1, job2, job3] = [job1]"
    by (simp add: dedupe_def Let_def K1 K2 K3)
  have "source (hd [job1]) = ''linkedin''" by (simp add: job1_def)
  moreover have "\<not> isAscii [CHR 0xC9]" by (simp add: isAscii_def)
  ultimately show ?thesis using ascii K1 K2 K3 d by (simp only: simp_thms)
qed

section \<open>Properties of path resolution and of applySuggestion\<close>

lemma walk_Some_valueAt: "walk d ks = Some c \<Longrightarrow> valueAt d (map toPropertyKey ks) = c"
  by (induction ks arbitrary: d) (auto split: if_splits)

lemma walk_None_iff:
  "walk d ks = None \<longleftrightarrow> (\<exists>n<length ks. nullish (valueAt d (map toPropertyKey (take n ks))))"
proof (induction ks arbitrary: d)
  case Nil
  then show ?case by simp
next
  case (Cons k ks)
  show ?case
  proof (cases "nullish d")
    case True
    then have "nullish (valueAt d (map toPropertyKey (take 0 (k # ks))))" by simp
    then have "\<exists>n<length (k # ks). nullish (valueAt d (map toPropertyKey (take n (k # ks))))"
      by (intro exI [of _ 0]) simp
    with True show ?thesis by simp
  next
    case False
    then show ?thesis
      using Cons.IH [of "getProp d (toPropertyKey k)"] by (simp add: Ex_less_Suc2)
  qed
qed

lemma valueAt_append: "valueAt d (ks @ q) = valueAt (valueAt d ks) q"
  by (induction ks arbitrary: d) auto

lemma resolvePath_None_iff:
  "resolvePath d p = None \<longleftrightarrow>
     tokenize p = [] \<or> (\<exists>n<length (tokenize p). nullish (valueAt d (take n (pathKeys p))))"
proof (cases "tokenize p = []")
  case True
  then show ?thesis by (simp add: resolvePath_def)
next
  case False
  let ?parts = "tokenize p"
  have len: "length (butlast ?parts) = length ?parts - 1" by simp
  have tk: "\<And>n. n < length ?parts \<Longrightarrow> take n (pathKeys p) = map toPropertyKey (take n (butlast ?parts))"
    using False by (simp add: pathKeys_def take_map take_butlast)
  have tk': "\<And>n. n < length ?parts \<Longrightarrow> take n (butlast ?parts) = take n ?parts"
    by (simp add: take_butlast)
  show ?thesis
  proof (cases "walk d (butlast ?parts)")
    case None
    then obtain n where n: "n < length (butlast ?parts)"
        "nullish (valueAt d (map toPropertyKey (take n (butlast ?parts))))"
      using walk_None_iff [of d "butlast ?parts"] by auto
    then have "n < length ?parts" by simp
    with n tk have "\<exists>n<length ?parts. nullish (valueAt d (take n (pathKeys p)))" by auto
    with None False show ?thesis by (simp add: resolvePath_def)
  next
    case (Some cur)
    then have cur: "cur = valueAt d (map toPropertyKey (butlast ?parts))"
      using walk_Some_valueAt by auto
    have nn: "\<not> (\<exists>n<length (butlast ?parts). nullish (valueAt d (map toPropertyKey (take n (butlast ?parts)))))"
      using Some walk_None_iff [of d "butlast ?parts"] by simp
    have "(\<exists>n<length ?parts. nullish (valueAt d (take n (pathKeys p)))) \<longleftrightarrow> nullish cur"
    proof
      assume "\<exists>n<length ?parts. nullish (valueAt d (take n (pathKeys p)))"
      then obtain n where n: "n < length ?parts" "nullish (valueAt d (take n (pathKeys p)))" by auto
      show "nullish cur"
      proof (cases "n < length (butlast ?parts)")
        case True
        with n tk nn show ?thesis by auto
      next
        case False
        with n have "n = length (butlast ?parts)" by simp
        with n tk [of n] cur show ?thesis by simp
      qed
    next
      assume c: "nullish cur"
      have "length (butlast ?parts) < length ?parts" using False by simp
      moreover have "take (length (butlast ?parts)) (pathKeys p) = map toPropertyKey (butlast ?parts)"
        using tk [OF calculation] by simp
      ultimately show "\<exists>n<length ?parts. nullish (valueAt d (take n (pathKeys p)))"
        using c cur by auto
    qed
    with Some False show ?thesis by (simp add: resolvePath_def Let_def)
  qed
qed

lemmas eval_path = tokenize.simps isDelim_def isDigit_def parseInt_def canonicalNumeric_def
  resolvePath_def pathKeys_def lookup_def Let_def

lemmas eval_plain = plainPath_def builtinPropertyNames_def

text \<open>
  C2. For a suggestion whose path is plain (it names no inherited property, and its
  indices are below \<open>2^53\<close>): the path does not resolve exactly when it has no
  segment, or when the root or a value on the way to the parent (the parent included) is
  \<open>null\<close> or \<open>undefined\<close>; and when it does not resolve, \<open>applySuggestion\<close>
  returns normally (no exception) and the document it returns is the document it was
  given, for every type of suggestion.
\<close>

theorem applySuggestion_unresolved_unchanged:
  assumes plain: "plainPath (section' s)"
  shows "(resolvePath d (section' s) = None \<longleftrightarrow>
            tokenize (section' s) = []
            \<or> (\<exists>n<length (tokenize (section' s)).
                  nullish (valueAt d (take n (pathKeys (section' s))))))
       \<and> (resolvePath d (section' s) = None \<longrightarrow> applySuggestion toLen s d = Inr d)"
proof
  show "resolvePath d (section' s) = None \<longleftrightarrow>
            tokenize (section' s) = []
            \<or> (\<exists>n<length (tokenize (section' s)).
                  nullish (valueAt d (take n (pathKeys (section' s)))))"
    by (rule resolvePath_None_iff)
next
  show "resolvePath d (section' s) = None \<longrightarrow> applySuggestion toLen s d = Inr d"
    by (simp add: applySuggestion_def)
qed

text \<open>
  C2, at the path of the test suite that names nothing in the profile: the root has no
  property \<open>nonexistent\<close>, so the value on the way after one segment is
  \<open>undefined\<close>. (A path through \<open>map\<close>, which arrays inherit, is not plain.)
\<close>

theorem applySuggestion_unresolved_unchanged_witness:
  "plainPath ''nonexistent[99].deep.path''
   \<and> \<not> plainPath ''experience.map.name''
   \<and> nullish (valueAt TEST_PROFILE (take 1 (pathKeys ''nonexistent[99].deep.path'')))
   \<and> resolvePath TEST_PROFILE ''nonexistent[99].deep.path'' = None
   \<and> applySuggestion noLength (makeSuggestion ''nonexistent[99].deep.path'' Rewrite ''x'') TEST_PROFILE
       = Inr TEST_PROFILE"
proof -
  let ?s = "makeSuggestion ''nonexistent[99].deep.path'' Rewrite ''x''"
  have sec: "section' ?s = ''nonexistent[99].deep.path''" by (simp add: makeSuggestion_def)
  have plain: "plainPath ''nonexistent[99].deep.path''" by (simp add: eval_plain eval_path)
  have len: "1 < length (tokenize ''nonexistent[99].deep.path'')" by (simp add: eval_path)
  have nul: "nullish (valueAt TEST_PROFILE (take 1 (pathKeys ''nonexistent[99].deep.path'')))"
    by (simp add: eval_path TEST_PROFILE_def)
  note fact = applySuggestion_unresolved_unchanged [of ?s TEST_PROFILE noLength, unfolded sec,
      OF plain]
  from len nul have "\<exists>n<length (tokenize ''nonexistent[99].deep.path'').
      nullish (valueAt TEST_PROFILE (take n (pathKeys ''nonexistent[99].deep.path'')))"
    by (intro exI [of _ 1] conjI)
  with fact have r: "resolvePath TEST_PROFILE ''nonexistent[99].deep.path'' = None"
    by blast
  with fact have "applySuggestion noLength ?s TEST_PROFILE = Inr TEST_PROFILE"
    by blast
  moreover have "\<not> plainPath ''experience.map.name''" by (simp add: eval_plain eval_path)
  ultimately show ?thesis using plain nul r by (intro conjI)
qed


lemma getProp_scalar: "\<not> isContainer c \<Longrightarrow> \<not> isContainer (getProp c k)"
  by (cases c) (simp_all split: pkey.splits)

lemma valueAt_scalar: "\<not> isContainer c \<Longrightarrow> \<not> isContainer (valueAt c ks)"
  by (induction ks arbitrary: c) (auto simp: getProp_scalar)

lemma lookup_update: "lookup (AList.update k v kvs) k' = (if k' = k then v else lookup kvs k')"
  by (simp add: lookup_def update_conv')

lemma lookup_container:
  assumes "isContainer (lookup kvs k)"
  shows "k \<in> fst ` set kvs"
proof (cases "map_of kvs k")
  case None
  with assms show ?thesis by (simp add: lookup_def)
next
  case (Some v)
  then have "(k, v) \<in> set kvs" by (rule map_of_SomeD)
  then have "fst (k, v) \<in> fst ` set kvs" by (rule imageI)
  then show ?thesis by simp
qed

lemma arrayIndex_Some: "arrayIndex k = Some i \<Longrightarrow> k = Idx i"
  by (cases k) (auto split: if_splits)

lemma getProp_putProp_same:
  assumes c: "isContainer (getProp d k)"
  shows "getProp (putProp d k c1) k = c1"
proof (cases "isContainer d")
  case False
  then have "\<not> isContainer (getProp d k)" by (rule getProp_scalar)
  with c show ?thesis by simp
next
  case True
  show ?thesis
  proof (cases d)
    case (JObj kvs)
    with c have "k \<in> fst ` set kvs" by (simp add: lookup_container)
    with JObj show ?thesis by (simp add: lookup_update)
  next
    case (JArr xs ps)
    show ?thesis
    proof (cases "arrayIndex k")
      case None
      with c JArr have "k \<noteq> Name ''length''" "k \<in> fst ` set ps"
        by (auto simp: lookup_container split: if_splits)
      with None JArr show ?thesis by (simp add: lookup_update)
    next
      case (Some i)
      with c JArr have "i < length xs" by (auto split: if_splits)
      with Some JArr show ?thesis by simp
    qed
  qed (use True in simp_all)
qed

lemma getProp_putProp_other: "k' \<noteq> k \<Longrightarrow> getProp (putProp d k c) k' = getProp d k'"
proof (cases d)
  case (JObj kvs)
  assume "k' \<noteq> k"
  with JObj show ?thesis by (simp add: lookup_update)
next
  case (JArr xs ps)
  assume ne: "k' \<noteq> k"
  show ?thesis
  proof (cases "arrayIndex k")
    case None
    with ne JArr show ?thesis by (auto simp: lookup_update split: option.splits)
  next
    case (Some i)
    then have k: "k = Idx i" by (rule arrayIndex_Some)
    show ?thesis
    proof (cases "arrayIndex k'")
      case None
      with Some JArr show ?thesis by simp
    next
      case (Some j)
      then have "k' = Idx j" by (rule arrayIndex_Some)
      with k ne have "i \<noteq> j" by auto
      with Some \<open>arrayIndex k = Some i\<close> JArr show ?thesis by simp
    qed
  qed
qed auto

lemma incomparable_Cons:
  "\<not> prefix q (k # ks) \<Longrightarrow> \<not> prefix (k # ks) q \<Longrightarrow>
   \<exists>k' q'. q = k' # q' \<and> (k' \<noteq> k \<or> (\<not> prefix q' ks \<and> \<not> prefix ks q'))"
  by (cases q) auto

lemma mutateAt_container:
  assumes "isContainer (valueAt d ks)" and "f (valueAt d ks) = Inr c'"
  shows "\<exists>d'. mutateAt d ks f = Inr d' \<and> valueAt d' ks = c'
           \<and> (\<forall>q. \<not> prefix q ks \<and> \<not> prefix ks q \<longrightarrow> valueAt d' q = valueAt d q)"
  using assms
proof (induction ks arbitrary: d)
  case Nil
  then show ?case by simp
next
  case (Cons k ks)
  let ?c = "getProp d k"
  from Cons.prems have cont: "isContainer (valueAt ?c ks)" and f: "f (valueAt ?c ks) = Inr c'"
    by simp_all
  from Cons.IH [OF cont f] obtain c1 where
      m: "mutateAt ?c ks f = Inr c1" and v: "valueAt c1 ks = c'"
      and fr: "\<forall>q. \<not> prefix q ks \<and> \<not> prefix ks q \<longrightarrow> valueAt c1 q = valueAt ?c q"
    by blast
  have child: "isContainer ?c" using cont valueAt_scalar by blast
  let ?d' = "putProp d k c1"
  have 1: "mutateAt d (k # ks) f = Inr ?d'" using m by simp
  have 2: "valueAt ?d' (k # ks) = c'" using v child by (simp add: getProp_putProp_same)
  have 3: "\<forall>q. \<not> prefix q (k # ks) \<and> \<not> prefix (k # ks) q \<longrightarrow> valueAt ?d' q = valueAt d q"
  proof (intro allI impI)
    fix q assume a: "\<not> prefix q (k # ks) \<and> \<not> prefix (k # ks) q"
    have "\<exists>k' q'. q = k' # q' \<and> (k' \<noteq> k \<or> (\<not> prefix q' ks \<and> \<not> prefix ks q'))"
      using a by (intro incomparable_Cons) simp_all
    then obtain k' q' where q: "q = k' # q'"
        and alt: "k' \<noteq> k \<or> (\<not> prefix q' ks \<and> \<not> prefix ks q')"
      by (elim exE conjE)
    show "valueAt ?d' q = valueAt d q"
    proof (cases "k' = k")
      case True
      with alt have "\<not> prefix q' ks \<and> \<not> prefix ks q'" by simp
      with fr have "valueAt c1 q' = valueAt ?c q'" by blast
      with True q child show ?thesis by (simp add: getProp_putProp_same)
    next
      case False
      with q show ?thesis by (simp add: getProp_putProp_other)
    qed
  qed
  from 1 2 3 show ?case by blast
qed

lemma resolvePath_SomeD:
  assumes "resolvePath d p = Some r"
  shows "tokenize p \<noteq> [] \<and> parentAt r = map toPropertyKey (butlast (tokenize p))
         \<and> key r = last (tokenize p) \<and> parent r = valueAt d (parentAt r)
         \<and> \<not> nullish (parent r)
         \<and> pathKeys p = parentAt r @ [toPropertyKey (key r)]"
proof -
  let ?parts = "tokenize p"
  from assms have ne: "?parts \<noteq> []" by (auto simp: resolvePath_def Let_def split: if_splits)
  from assms ne obtain cur where w: "walk d (butlast ?parts) = Some cur"
    by (cases "walk d (butlast ?parts)") (auto simp: resolvePath_def Let_def)
  from assms ne w have nn: "\<not> nullish cur"
    by (auto simp: resolvePath_def Let_def split: if_splits)
  from assms ne w nn have r: "r = \<lparr>parentAt = map toPropertyKey (butlast ?parts), parent = cur,
                             key = last ?parts\<rparr>"
    by (simp add: resolvePath_def Let_def)
  have cur: "cur = valueAt d (map toPropertyKey (butlast ?parts))"
    using w walk_Some_valueAt by auto
  have "map toPropertyKey ?parts = map toPropertyKey (butlast ?parts) @ [toPropertyKey (last ?parts)]"
    using ne append_butlast_last_id [of ?parts] by (metis list.simps(8,9) map_append)
  with ne r cur nn show ?thesis by (simp add: pathKeys_def)
qed

lemma assign_inside:
  assumes "targetInside par k"
  shows "\<exists>c'. assign toLen par k v = Inr c' \<and> getProp c' k = JStr v
           \<and> (\<forall>k'. k' \<noteq> k \<longrightarrow> getProp c' k' = getProp par k')"
proof (cases par)
  case (JObj kvs)
  then show ?thesis by (simp add: assign_def lookup_update)
next
  case (JArr xs ps)
  show ?thesis
  proof (cases "arrayIndex k")
    case (Some i)
    with assms JArr have i: "i < length xs" by simp
    from Some have k: "k = Idx i" by (rule arrayIndex_Some)
    have "\<forall>k'. k' \<noteq> k \<longrightarrow> getProp (JArr (xs[i := JStr v]) ps) k' = getProp (JArr xs ps) k'"
    proof (intro allI impI)
      fix k' assume ne: "k' \<noteq> k"
      show "getProp (JArr (xs[i := JStr v]) ps) k' = getProp (JArr xs ps) k'"
      proof (cases "arrayIndex k'")
        case None
        then show ?thesis by simp
      next
        case (Some j)
        then have "k' = Idx j" by (rule arrayIndex_Some)
        with k ne have "i \<noteq> j" by auto
        with Some show ?thesis by simp
      qed
    qed
    with JArr Some i show ?thesis by (simp add: assign_def)
  next
    case None
    with assms JArr have nl: "k \<noteq> Name ''length''" by simp
    have "\<forall>k'. k' \<noteq> k \<longrightarrow>
            getProp (JArr xs (AList.update k (JStr v) ps)) k' = getProp (JArr xs ps) k'"
    proof (intro allI impI)
      fix k' assume ne: "k' \<noteq> k"
      show "getProp (JArr xs (AList.update k (JStr v) ps)) k' = getProp (JArr xs ps) k'"
        by (cases "arrayIndex k'") (simp_all add: lookup_update ne)
    qed
    with JArr None nl show ?thesis by (simp add: assign_def lookup_update)
  qed
qed (use assms in simp_all)

lemma targetInside_container: "targetInside par k \<Longrightarrow> isContainer par"
  by (cases par) simp_all

lemma incomparable_snoc:
  assumes "\<not> prefix q (ks @ [k])" and "\<not> prefix (ks @ [k]) q"
  shows "(\<not> prefix q ks \<and> \<not> prefix ks q) \<or> (\<exists>k' q'. q = ks @ k' # q' \<and> k' \<noteq> k)"
proof (cases "prefix ks q")
  case False
  moreover have "\<not> prefix q ks" using assms(1) by (auto simp: prefix_def)
  ultimately show ?thesis by simp
next
  case True
  then obtain q0 where q: "q = ks @ q0" by (auto simp: prefix_def)
  show ?thesis
  proof (cases q0)
    case Nil
    with q assms(1) show ?thesis by (simp add: prefix_def)
  next
    case (Cons k' q')
    with q assms(2) have "k' \<noteq> k" by auto
    with q Cons show ?thesis by blast
  qed
qed

text \<open>
  C1. As the claim states it, for every path that resolves, the property fails: the
  plain path \<open>summary[0]\<close> resolves in the test profile, to the string of
  \<open>summary\<close> as parent and the index 0 as key, and the value there is the character
  \<open>O\<close>; the assignment to a character of a string raises \<open>TypeError\<close>, and
  nothing is set.
\<close>

theorem rewrite_string_character_counterexample:
  "plainPath ''summary[0]''
   \<and> resolvePath TEST_PROFILE ''summary[0]'' =
     Some \<lparr>parentAt = [Name ''summary''], parent = JStr ''Original summary text'', key = KNum 0\<rparr>
   \<and> valueAt TEST_PROFILE (pathKeys ''summary[0]'') = JStr ''O''
   \<and> applySuggestion noLength (makeSuggestion ''summary[0]'' Rewrite ''X'') TEST_PROFILE = Inl TypeError"
  by (simp add: eval_plain eval_path TEST_PROFILE_def applySuggestion_def makeSuggestion_def
      mutateParent_def assign_def)

text \<open>
  C1, as amended. When the path is plain (it names no inherited property, and its
  indices are below \<open>2^53\<close>), it resolves, and its target lies in a container (the
  parent is an object; or it is an array and the key is an index below its length or the
  name of a property other than \<open>length\<close>), a suggestion of any type but
  \<open>remove\<close> is applied without an exception; afterwards the value at the path is the
  suggested text, also when the key is new, and the value at every path that neither
  leads to the target nor goes through it is what it was.
\<close>

theorem applySuggestion_sets_value:
  assumes plain: "plainPath (section' s)"
    and res: "resolvePath d (section' s) = Some r"
    and ty: "type' s \<noteq> Remove"
    and ins: "targetInside (parent r) (toPropertyKey (key r))"
  shows "\<exists>d'. applySuggestion toLen s d = Inr d'
           \<and> valueAt d' (pathKeys (section' s)) = JStr (suggested s)
           \<and> (\<forall>q. \<not> prefix q (pathKeys (section' s)) \<and> \<not> prefix (pathKeys (section' s)) q
                  \<longrightarrow> valueAt d' q = valueAt d q)"
proof -
  let ?ks = "parentAt r"
  let ?k = "toPropertyKey (key r)"
  let ?f = "mutateParent toLen s (key r)"
  from resolvePath_SomeD [OF res] have par: "parent r = valueAt d ?ks"
      and pk: "pathKeys (section' s) = ?ks @ [?k]" by simp_all
  from assign_inside [OF ins, of toLen "suggested s"] obtain c' where
      a: "assign toLen (parent r) ?k (suggested s) = Inr c'"
      and same: "getProp c' ?k = JStr (suggested s)"
      and other: "\<forall>k'. k' \<noteq> ?k \<longrightarrow> getProp c' k' = getProp (parent r) k'"
    by blast
  have f: "?f (valueAt d ?ks) = Inr c'" using a ty par by (simp add: mutateParent_def)
  have cont: "isContainer (valueAt d ?ks)" using ins par targetInside_container by auto
  from mutateAt_container [of d ?ks ?f c', OF cont f] obtain d' where
      m: "mutateAt d ?ks ?f = Inr d'" and v: "valueAt d' ?ks = c'"
      and fr: "\<forall>q. \<not> prefix q ?ks \<and> \<not> prefix ?ks q \<longrightarrow> valueAt d' q = valueAt d q"
    by blast
  have 1: "applySuggestion toLen s d = Inr d'" using res m by (simp add: applySuggestion_def)
  have 2: "valueAt d' (pathKeys (section' s)) = JStr (suggested s)"
    using v same by (simp add: pk valueAt_append)
  have 3: "\<forall>q. \<not> prefix q (pathKeys (section' s)) \<and> \<not> prefix (pathKeys (section' s)) q
                  \<longrightarrow> valueAt d' q = valueAt d q"
  proof (intro allI impI)
    fix q assume "\<not> prefix q (pathKeys (section' s)) \<and> \<not> prefix (pathKeys (section' s)) q"
    then have n1: "\<not> prefix q (?ks @ [?k])" and n2: "\<not> prefix (?ks @ [?k]) q"
      by (simp_all add: pk)
    from incomparable_snoc [OF n1 n2] show "valueAt d' q = valueAt d q"
    proof
      assume "\<not> prefix q ?ks \<and> \<not> prefix ?ks q"
      with fr show ?thesis by blast
    next
      assume "\<exists>k' q'. q = ?ks @ k' # q' \<and> k' \<noteq> ?k"
      then obtain k' q' where q: "q = ?ks @ k' # q'" and ne: "k' \<noteq> ?k" by (elim exE conjE)
      have "valueAt d' q = valueAt (getProp c' k') q'" using q v by (simp add: valueAt_append)
      also have "\<dots> = valueAt (getProp (parent r) k') q'" using other ne by simp
      also have "\<dots> = valueAt d q" using q par by (simp add: valueAt_append)
      finally show ?thesis .
    qed
  qed
  from 1 2 3 show ?thesis by (intro exI [of _ d'] conjI)
qed

text \<open>
  C1 as amended, at the rewrite of a bullet in the test suite: the bullet is replaced,
  its neighbours and the summary are kept. And at a path that names a new property of the
  array of skills: the property is set, and the elements of the array are kept.
\<close>

theorem applySuggestion_sets_value_witness:
  "plainPath ''experience[0].bullets[1]'' \<and>
   (\<exists>d'. applySuggestion noLength (makeSuggestion ''experience[0].bullets[1]'' Rewrite ''Improved bullet'')
            TEST_PROFILE = Inr d'
     \<and> valueAt d' [Name ''experience'', Idx 0, Name ''bullets'', Idx 1] = JStr ''Improved bullet''
     \<and> valueAt d' [Name ''experience'', Idx 0, Name ''bullets'', Idx 0] = JStr ''First bullet''
     \<and> valueAt d' [Name ''experience'', Idx 0, Name ''bullets'', Idx 2] = JStr ''Third bullet''
     \<and> valueAt d' [Name ''summary''] = JStr ''Original summary text'')
   \<and> plainPath ''skills.primary'' \<and>
   (\<exists>d'. applySuggestion noLength (makeSuggestion ''skills.primary'' Rewrite ''Go'') TEST_PROFILE
            = Inr d'
     \<and> valueAt d' [Name ''skills'', Name ''primary''] = JStr ''Go''
     \<and> valueAt d' [Name ''skills'', Idx 0, Name ''category''] = JStr ''Languages'')"
proof -
  let ?t = "makeSuggestion ''skills.primary'' Rewrite ''Go''"
  let ?skills = "JArr [JObj [(Name ''category'', JStr ''Languages''),
                          (Name ''items'',
                             JArr [JStr ''Go'', JStr ''Python'', JStr ''TypeScript'', JStr ''SQL''] [])]] []"
  let ?rt = "\<lparr>parentAt = [Name ''skills''], parent = ?skills, key = KStr ''primary''\<rparr>"
  have plain_t': "plainPath ''skills.primary''" by (simp add: eval_plain eval_path)
  then have plain_t: "plainPath (section' ?t)" by (simp add: makeSuggestion_def)
  have res_t: "resolvePath TEST_PROFILE (section' ?t) = Some ?rt"
    by (simp add: eval_path TEST_PROFILE_def makeSuggestion_def)
  have ty_t: "type' ?t \<noteq> Remove" by (simp add: makeSuggestion_def)
  have ins_t: "targetInside (parent ?rt) (toPropertyKey (key ?rt))" by (simp add: eval_path)
  have pk_t: "pathKeys (section' ?t) = [Name ''skills'', Name ''primary'']"
    by (simp add: eval_path makeSuggestion_def)
  from applySuggestion_sets_value [OF plain_t res_t ty_t ins_t, of noLength] obtain e' where
      t1: "applySuggestion noLength ?t TEST_PROFILE = Inr e'"
      and t2: "valueAt e' (pathKeys (section' ?t)) = JStr (suggested ?t)"
      and t3: "\<forall>q. \<not> prefix q (pathKeys (section' ?t)) \<and> \<not> prefix (pathKeys (section' ?t)) q
                \<longrightarrow> valueAt e' q = valueAt TEST_PROFILE q"
    by blast
  note frame_t = t3 [unfolded pk_t, rule_format]
  have ta: "valueAt e' [Name ''skills'', Name ''primary''] = JStr ''Go''"
    using t2 unfolding pk_t by (simp add: makeSuggestion_def)
  have "valueAt e' [Name ''skills'', Idx 0, Name ''category'']
          = valueAt TEST_PROFILE [Name ''skills'', Idx 0, Name ''category'']"
    by (rule frame_t) simp
  then have tb: "valueAt e' [Name ''skills'', Idx 0, Name ''category''] = JStr ''Languages''"
    by (simp add: TEST_PROFILE_def lookup_def)
  from t1 ta tb have second: "\<exists>d'. applySuggestion noLength ?t TEST_PROFILE = Inr d'
     \<and> valueAt d' [Name ''skills'', Name ''primary''] = JStr ''Go''
     \<and> valueAt d' [Name ''skills'', Idx 0, Name ''category''] = JStr ''Languages''"
    by (intro exI [of _ e'] conjI)
  let ?s = "makeSuggestion ''experience[0].bullets[1]'' Rewrite ''Improved bullet''"
  have plain': "plainPath ''experience[0].bullets[1]''" by (simp add: eval_plain eval_path)
  then have plain: "plainPath (section' ?s)" by (simp add: makeSuggestion_def)
  let ?r = "\<lparr>parentAt = [Name ''experience'', Idx 0, Name ''bullets''],
         parent = JArr [JStr ''First bullet'', JStr ''Old bullet'', JStr ''Third bullet''] [],
         key = KNum 1\<rparr>"
  have res: "resolvePath TEST_PROFILE (section' ?s) = Some ?r"
    by (simp add: eval_path TEST_PROFILE_def makeSuggestion_def)
  have ty: "type' ?s \<noteq> Remove" by (simp add: makeSuggestion_def)
  have ins: "targetInside (parent ?r) (toPropertyKey (key ?r))" by simp
  have pk: "pathKeys (section' ?s) = [Name ''experience'', Idx 0, Name ''bullets'', Idx 1]"
    by (simp add: eval_path makeSuggestion_def)
  from applySuggestion_sets_value [OF plain res ty ins, of noLength] obtain d' where
      1: "applySuggestion noLength ?s TEST_PROFILE = Inr d'"
      and 2: "valueAt d' (pathKeys (section' ?s)) = JStr (suggested ?s)"
      and 3: "\<forall>q. \<not> prefix q (pathKeys (section' ?s)) \<and> \<not> prefix (pathKeys (section' ?s)) q
                \<longrightarrow> valueAt d' q = valueAt TEST_PROFILE q"
    by blast
  note frame = 3 [unfolded pk, rule_format]
  have a: "valueAt d' [Name ''experience'', Idx 0, Name ''bullets'', Idx 1] = JStr ''Improved bullet''"
    using 2 unfolding pk by (simp add: makeSuggestion_def)
  have "valueAt d' [Name ''experience'', Idx 0, Name ''bullets'', Idx 0]
          = valueAt TEST_PROFILE [Name ''experience'', Idx 0, Name ''bullets'', Idx 0]"
    by (rule frame) simp
  then have b: "valueAt d' [Name ''experience'', Idx 0, Name ''bullets'', Idx 0] = JStr ''First bullet''"
    by (simp add: TEST_PROFILE_def lookup_def)
  have "valueAt d' [Name ''experience'', Idx 0, Name ''bullets'', Idx 2]
          = valueAt TEST_PROFILE [Name ''experience'', Idx 0, Name ''bullets'', Idx 2]"
    by (rule frame) simp
  then have c: "valueAt d' [Name ''experience'', Idx 0, Name ''bullets'', Idx 2] = JStr ''Third bullet''"
    by (simp add: TEST_PROFILE_def lookup_def)
  have "valueAt d' [Name ''summary''] = valueAt TEST_PROFILE [Name ''summary'']"
    by (rule frame) simp
  then have e: "valueAt d' [Name ''summary''] = JStr ''Original summary text''"
    by (simp add: TEST_PROFILE_def lookup_def)
  from 1 a b c e have "\<exists>d'. applySuggestion noLength ?s TEST_PROFILE = Inr d'
     \<and> valueAt d' [Name ''experience'', Idx 0, Name ''bullets'', Idx 1] = JStr ''Improved bullet''
     \<and> valueAt d' [Name ''experience'', Idx 0, Name ''bullets'', Idx 0] = JStr ''First bullet''
     \<and> valueAt d' [Name ''experience'', Idx 0, Name ''bullets'', Idx 2] = JStr ''Third bullet''
     \<and> valueAt d' [Name ''summary''] = JStr ''Original summary text''"
    by (intro exI [of _ d'] conjI)
  with plain' plain_t' second show ?thesis by (intro conjI)
qed


lemma splice_facts:
  assumes "i < length (xs :: 'a list)"
  shows "length (take i xs @ drop (Suc i) xs) + 1 = length xs"
    and "\<forall>j. j < i \<longrightarrow> (take i xs @ drop (Suc i) xs) ! j = xs ! j"
    and "\<forall>j. i \<le> j \<and> j < length (take i xs @ drop (Suc i) xs)
            \<longrightarrow> (take i xs @ drop (Suc i) xs) ! j = xs ! Suc j"
  using assms by (auto simp: nth_append min_def)

text \<open>
  C3. As the claim states it, for every resolved parent that is an array with a numeric
  key, the property fails: the plain path \<open>experience[1].bullets[5]\<close> resolves to
  an array of two elements and the number 5, \<open>splice\<close> finds nothing at 5, and the
  array keeps its length (the whole profile is unchanged).
\<close>

theorem remove_past_end_counterexample:
  "plainPath ''experience[1].bullets[5]''
   \<and> resolvePath TEST_PROFILE ''experience[1].bullets[5]'' =
     Some \<lparr>parentAt = [Name ''experience'', Idx 1, Name ''bullets''],
           parent = JArr [JStr ''Remove me'', JStr ''Keep me''] [], key = KNum 5\<rparr>
   \<and> applySuggestion noLength (makeSuggestion ''experience[1].bullets[5]'' Remove '''') TEST_PROFILE
       = Inr TEST_PROFILE"
  by (simp add: eval_plain eval_path TEST_PROFILE_def applySuggestion_def makeSuggestion_def
      mutateParent_def splice1_def)


text \<open>
  C3, as amended. For a suggestion of type \<open>remove\<close> whose path is plain (it names
  no inherited property, and its indices are below \<open>2^53\<close>) and resolves: when the
  parent is an array and the key a number below its length, exactly the element at that
  index is removed (the array is one shorter, the elements before keep their place, the
  elements after move down by one); when the parent is an object, the key is deleted
  (it is no key of the object afterwards) and the other keys keep their values.
\<close>

theorem applySuggestion_remove:
  assumes plain: "plainPath (section' s)"
    and res: "resolvePath d (section' s) = Some r" and ty: "type' s = Remove"
  shows "(\<forall>xs ps i. parent r = JArr xs ps \<and> key r = KNum i \<and> i < length xs \<longrightarrow>
            (\<exists>d' ys. applySuggestion toLen s d = Inr d' \<and> valueAt d' (parentAt r) = JArr ys ps
               \<and> ys = take i xs @ drop (Suc i) xs \<and> length ys + 1 = length xs
               \<and> (\<forall>j. j < i \<longrightarrow> ys ! j = xs ! j)
               \<and> (\<forall>j. i \<le> j \<and> j < length ys \<longrightarrow> ys ! j = xs ! Suc j)))
       \<and> (\<forall>kvs. parent r = JObj kvs \<longrightarrow>
            (\<exists>d' kvs'. applySuggestion toLen s d = Inr d' \<and> valueAt d' (parentAt r) = JObj kvs'
               \<and> toPropertyKey (key r) \<notin> fst ` set kvs'
               \<and> (\<forall>k'. k' \<noteq> toPropertyKey (key r) \<longrightarrow> map_of kvs' k' = map_of kvs k')))"
proof (intro conjI allI impI)
  fix xs ps i
  assume a: "parent r = JArr xs ps \<and> key r = KNum i \<and> i < length xs"
  let ?ys = "take i xs @ drop (Suc i) xs"
  let ?f = "mutateParent toLen s (key r)"
  from resolvePath_SomeD [OF res] have par: "parent r = valueAt d (parentAt r)" by simp
  have f: "?f (valueAt d (parentAt r)) = Inr (JArr ?ys ps)"
    using a ty par by (simp add: mutateParent_def splice1_def)
  have cont: "isContainer (valueAt d (parentAt r))" using a par by simp
  from mutateAt_container [of d "parentAt r" ?f "JArr ?ys ps", OF cont f] obtain d' where
      m: "mutateAt d (parentAt r) ?f = Inr d'" and v: "valueAt d' (parentAt r) = JArr ?ys ps"
    by blast
  have 1: "applySuggestion toLen s d = Inr d'" using res m by (simp add: applySuggestion_def)
  from a have i: "i < length xs" by simp
  show "\<exists>d' ys. applySuggestion toLen s d = Inr d' \<and> valueAt d' (parentAt r) = JArr ys ps
               \<and> ys = take i xs @ drop (Suc i) xs \<and> length ys + 1 = length xs
               \<and> (\<forall>j. j < i \<longrightarrow> ys ! j = xs ! j)
               \<and> (\<forall>j. i \<le> j \<and> j < length ys \<longrightarrow> ys ! j = xs ! Suc j)"
    using 1 v splice_facts [OF i] by (intro exI [of _ d'] exI [of _ ?ys] conjI refl)
next
  fix kvs
  assume a: "parent r = JObj kvs"
  let ?k = "toPropertyKey (key r)"
  let ?kvs' = "AList.delete ?k kvs"
  let ?f = "mutateParent toLen s (key r)"
  from resolvePath_SomeD [OF res] have par: "parent r = valueAt d (parentAt r)" by simp
  have f: "?f (valueAt d (parentAt r)) = Inr (JObj ?kvs')"
    using a ty par by (simp add: mutateParent_def deleteProp_def)
  have cont: "isContainer (valueAt d (parentAt r))" using a par by simp
  from mutateAt_container [of d "parentAt r" ?f "JObj ?kvs'", OF cont f] obtain d' where
      m: "mutateAt d (parentAt r) ?f = Inr d'" and v: "valueAt d' (parentAt r) = JObj ?kvs'"
    by blast
  have 1: "applySuggestion toLen s d = Inr d'" using res m by (simp add: applySuggestion_def)
  have 2: "?k \<notin> fst ` set ?kvs'" by (rule delete_notin_dom)
  have 3: "\<forall>k'. k' \<noteq> ?k \<longrightarrow> map_of ?kvs' k' = map_of kvs k'" by (simp add: delete_conv')
  show "\<exists>d' kvs'. applySuggestion toLen s d = Inr d' \<and> valueAt d' (parentAt r) = JObj kvs'
               \<and> ?k \<notin> fst ` set kvs' \<and> (\<forall>k'. k' \<noteq> ?k \<longrightarrow> map_of kvs' k' = map_of kvs k')"
    using 1 v 2 3 by (intro exI [of _ d'] exI [of _ ?kvs'] conjI)
qed


text \<open>
  C3 as amended, at the two removals of the test suite: the first bullet of the second
  job, and the summary. (A path with the index \<open>2^53 + 1\<close> is not plain.)
\<close>

theorem applySuggestion_remove_witness:
  "plainPath ''experience[1].bullets[0]'' \<and> plainPath ''summary''
   \<and> \<not> plainPath ''a[9007199254740993]'' \<and>
   (\<exists>d'. applySuggestion noLength (makeSuggestion ''experience[1].bullets[0]'' Remove '''') TEST_PROFILE
            = Inr d'
        \<and> valueAt d' [Name ''experience'', Idx 1, Name ''bullets''] = JArr [JStr ''Keep me''] [])
   \<and> (\<exists>d' kvs'. applySuggestion noLength (makeSuggestion ''summary'' Remove '''') TEST_PROFILE = Inr d'
        \<and> d' = JObj kvs' \<and> Name ''summary'' \<notin> fst ` set kvs'
        \<and> map_of kvs' (Name ''name'') = Some (JStr ''Test User''))"
proof (intro conjI)
  show "plainPath ''experience[1].bullets[0]''" by (simp add: eval_plain eval_path)
next
  show "plainPath ''summary''" by (simp add: eval_plain eval_path)
next
  show "\<not> plainPath ''a[9007199254740993]''" by (simp add: eval_plain eval_path)
next
  let ?s = "makeSuggestion ''experience[1].bullets[0]'' Remove ''''"
  have plain: "plainPath (section' ?s)" by (simp add: makeSuggestion_def eval_plain eval_path)
  let ?r = "\<lparr>parentAt = [Name ''experience'', Idx 1, Name ''bullets''],
         parent = JArr [JStr ''Remove me'', JStr ''Keep me''] [], key = KNum 0\<rparr>"
  have res: "resolvePath TEST_PROFILE (section' ?s) = Some ?r"
    by (simp add: eval_path TEST_PROFILE_def makeSuggestion_def)
  have ty: "type' ?s = Remove" by (simp add: makeSuggestion_def)
  have h: "parent ?r = JArr [JStr ''Remove me'', JStr ''Keep me''] [] \<and> key ?r = KNum 0
          \<and> 0 < length [JStr ''Remove me'', JStr ''Keep me'']" by simp
  note array_case = conjunct1 [OF applySuggestion_remove [OF plain res ty, of noLength], rule_format,
      of "[JStr ''Remove me'', JStr ''Keep me'']" "[]" 0]
  from array_case [OF h] obtain d' ys where
      "applySuggestion noLength ?s TEST_PROFILE = Inr d'"
      "valueAt d' (parentAt ?r) = JArr ys []"
      "ys = take 0 [JStr ''Remove me'', JStr ''Keep me''] @ drop (Suc 0) [JStr ''Remove me'', JStr ''Keep me'']"
    by (elim exE conjE)
  then show "\<exists>d'. applySuggestion noLength ?s TEST_PROFILE = Inr d'
        \<and> valueAt d' [Name ''experience'', Idx 1, Name ''bullets''] = JArr [JStr ''Keep me''] []"
    by (intro exI [of _ d']) simp
next
  let ?s = "makeSuggestion ''summary'' Remove ''''"
  have plain: "plainPath (section' ?s)" by (simp add: makeSuggestion_def eval_plain eval_path)
  let ?r = "\<lparr>parentAt = [], parent = TEST_PROFILE, key = KStr ''summary''\<rparr>"
  have res: "resolvePath TEST_PROFILE (section' ?s) = Some ?r"
    by (simp add: eval_path TEST_PROFILE_def makeSuggestion_def)
  have ty: "type' ?s = Remove" by (simp add: makeSuggestion_def)
  have k: "toPropertyKey (key ?r) = Name ''summary''" by (simp add: eval_path)
  obtain kvs where kvs: "parent ?r = JObj kvs" "map_of kvs (Name ''name'') = Some (JStr ''Test User'')"
    by (simp add: TEST_PROFILE_def)
  note object_case = conjunct2 [OF applySuggestion_remove [OF plain res ty, of noLength], rule_format,
      of kvs]
  from object_case [OF kvs(1)] obtain d' kvs' where
      "applySuggestion noLength ?s TEST_PROFILE = Inr d'"
      "valueAt d' (parentAt ?r) = JObj kvs'"
      "toPropertyKey (key ?r) \<notin> fst ` set kvs'"
      "\<forall>k'. k' \<noteq> toPropertyKey (key ?r) \<longrightarrow> map_of kvs' k' = map_of kvs k'"
    by (elim exE conjE)
  then show "\<exists>d' kvs'. applySuggestion noLength ?s TEST_PROFILE = Inr d'
        \<and> d' = JObj kvs' \<and> Name ''summary'' \<notin> fst ` set kvs'
        \<and> map_of kvs' (Name ''name'') = Some (JStr ''Test User'')"
    using kvs k by (intro exI [of _ d'] exI [of _ kvs']) simp
qed

section \<open>Properties of applyByIds\<close>

lemma partition_filter:
  "partitionSuggestions sel ss
     = (filter (selected sel) ss, map id' (filter (\<lambda>s. \<not> selected sel s) ss))"
  by (induction ss) (simp_all add: Let_def)

lemma applyLoop_fst: "fst (applyLoop toLen ss p jid w) = applyAll toLen ss p"
  by (induction ss arbitrary: p w) (simp_all split: sum.splits)

lemma logChange_files:
  "profileFile (logChange s a jid w) = profileFile w"
  "backupFile (logChange s a jid w) = backupFile w"
  "suggestionsFiles (logChange s a jid w) = suggestionsFiles w"
  "events (logChange s a jid w) = events w @ [ChangelogWritten (suggestionsDir jid)]"
  by (simp_all add: logChange_def Let_def)

lemma applyLoop_world:
  "\<exists>es. events (snd (applyLoop toLen ss p jid w)) = events w @ es
        \<and> BackupCopied \<notin> set es \<and> ProfileWritten \<notin> set es
        \<and> profileFile (snd (applyLoop toLen ss p jid w)) = profileFile w
        \<and> backupFile (snd (applyLoop toLen ss p jid w)) = backupFile w"
proof (induction ss arbitrary: p w)
  case Nil
  then show ?case by simp
next
  case (Cons s ss)
  show ?case
  proof (cases "applySuggestion toLen s p")
    case (Inl e)
    then show ?thesis by simp
  next
    case (Inr p')
    let ?w1 = "logChange s ''approved'' jid (w\<lparr>events := events w @ [SuggestionApplied (id' s)]\<rparr>)"
    from Cons.IH [of p' ?w1] obtain es where
        es: "events (snd (applyLoop toLen ss p' jid ?w1)) = events ?w1 @ es"
        "BackupCopied \<notin> set es" "ProfileWritten \<notin> set es"
        "profileFile (snd (applyLoop toLen ss p' jid ?w1)) = profileFile ?w1"
        "backupFile (snd (applyLoop toLen ss p' jid ?w1)) = backupFile ?w1"
      by (elim exE conjE)
    let ?es = "[SuggestionApplied (id' s), ChangelogWritten (suggestionsDir jid)] @ es"
    have "events (snd (applyLoop toLen (s # ss) p jid w)) = events w @ ?es"
      using Inr es(1) by (simp add: logChange_files)
    moreover have "BackupCopied \<notin> set ?es" "ProfileWritten \<notin> set ?es" using es(2,3) by simp_all
    moreover have "profileFile (snd (applyLoop toLen (s # ss) p jid w)) = profileFile w"
      using Inr es(4) by (simp add: logChange_files)
    moreover have "backupFile (snd (applyLoop toLen (s # ss) p jid w)) = backupFile w"
      using Inr es(5) by (simp add: logChange_files)
    ultimately show ?thesis by blast
  qed
qed

lemma truthy_exists: "\<not> falsy (loadProfile w) \<Longrightarrow> existsProfile w"
  by (auto simp: loadProfile_def existsProfile_def)

lemma unloadable_falsy:
  "profileFile w = Missing \<or> profileFile w = Unparseable \<Longrightarrow> falsy (loadProfile w)"
  by (auto simp: loadProfile_def)

lemma applyByIds_no_suggestions:
  "loadSuggestions jid w = None \<or> (\<exists>data. loadSuggestions jid w = Some data \<and> suggestions data = [])
   \<Longrightarrow> applyByIds toLen sel jid w = (Inr emptyResult, w)"
  by (auto simp: applyByIds_def)

lemma applyByIds_no_profile:
  "loadSuggestions jid w = Some data \<Longrightarrow> suggestions data \<noteq> [] \<Longrightarrow> falsy (loadProfile w)
   \<Longrightarrow> applyByIds toLen sel jid w = (Inl (Error noProfileMessage), w)"
  by (simp add: applyByIds_def Let_def)

text \<open>The call past both loads, with the loops named.\<close>

lemma applyByIds_loaded:
  assumes "loadSuggestions jid w = Some data" and "suggestions data \<noteq> []"
    and "\<not> falsy (loadProfile w)"
  shows "applyByIds toLen sel jid w =
     (let toApply = filter (selected sel) (suggestions data);
          w1 = (if toApply \<noteq> [] then copyBackup w else w);
          w2 = snd (applyLoop toLen toApply (loadProfile w) jid w1)
      in case applyAll toLen toApply (loadProfile w) of
           Inl e \<Rightarrow> (Inl e, w2)
         | Inr p' \<Rightarrow>
             (Inr \<lparr>applied = map id' toApply,
                   skipped = map id' (filter (\<lambda>s. \<not> selected sel s) (suggestions data)),
                   backupCreated = (toApply \<noteq> [])\<rparr>,
              if toApply \<noteq> [] then writeProfileAtomic p' w2 else w2))"
proof (cases "filter (selected sel) (suggestions data) = []")
  case True
  with assms show ?thesis
    by (simp add: applyByIds_def Let_def partition_filter)
next
  case False
  let ?toApply = "filter (selected sel) (suggestions data)"
  obtain res w2 where l: "applyLoop toLen ?toApply (loadProfile w) jid (copyBackup w) = (res, w2)"
    by (cases "applyLoop toLen ?toApply (loadProfile w) jid (copyBackup w)")
  have res: "applyAll toLen ?toApply (loadProfile w) = res"
    using l applyLoop_fst [of toLen ?toApply "loadProfile w" jid "copyBackup w"] by simp
  have w2: "snd (applyLoop toLen ?toApply (loadProfile w) jid (copyBackup w)) = w2"
    using l by simp
  have ex: "existsProfile w" using assms(3) by (rule truthy_exists)
  have "applyByIds toLen sel jid w =
      (case res of
         Inl e \<Rightarrow> (Inl e, w2)
       | Inr p' \<Rightarrow>
           (Inr \<lparr>applied = map id' ?toApply,
                 skipped = map id' (filter (\<lambda>s. \<not> selected sel s) (suggestions data)),
                 backupCreated = True\<rparr>,
            writeProfileAtomic p' w2))"
    using assms False ex l
    by (cases res) (simp_all add: applyByIds_def Let_def partition_filter)
  then show ?thesis
    using False by (simp only: Let_def res w2 if_True simp_thms)
qed

lemma applyByIds_result:
  assumes load: "loadSuggestions jid w = Some data"
    and ret: "fst (applyByIds toLen sel jid w) = Inr r"
  shows "applied r = map id' (filter (selected sel) (suggestions data))
         \<and> skipped r = map id' (filter (\<lambda>s. \<not> selected sel s) (suggestions data))
         \<and> backupCreated r = (filter (selected sel) (suggestions data) \<noteq> [])"
proof (cases "suggestions data = []")
  case True
  with load have "applyByIds toLen sel jid w = (Inr emptyResult, w)"
    using applyByIds_no_suggestions [of jid w toLen sel] by blast
  with ret True show ?thesis by (auto simp: emptyResult_def)
next
  case False
  show ?thesis
  proof (cases "falsy (loadProfile w)")
    case True
    with load False ret show ?thesis by (simp add: applyByIds_no_profile)
  next
    case prof: False
    show ?thesis
    proof (cases "applyAll toLen (filter (selected sel) (suggestions data)) (loadProfile w)")
      case (Inl e)
      with ret show ?thesis
        by (simp add: applyByIds_loaded [OF load False prof] Let_def)
    next
      case (Inr p')
      with ret show ?thesis
        by (auto simp: applyByIds_loaded [OF load False prof] Let_def)
    qed
  qed
qed






lemma newEvents_eq: "events w' = events w @ es \<Longrightarrow> newEvents w w' = es"
  by (simp add: newEvents_def)

lemma applyByIds_backup_made:
  assumes load: "loadSuggestions jid w = Some data" and prof: "\<not> falsy (loadProfile w)"
    and sel: "filter (selected sel) (suggestions data) \<noteq> []"
  shows "\<exists>rest. newEvents w (snd (applyByIds toLen sel jid w)) = BackupCopied # rest
           \<and> BackupCopied \<notin> set rest
           \<and> backupFile (snd (applyByIds toLen sel jid w)) = profileFile w"
proof -
  let ?toApply = "filter (selected sel) (suggestions data)"
  let ?w2 = "snd (applyLoop toLen ?toApply (loadProfile w) jid (copyBackup w))"
  from sel have ne: "suggestions data \<noteq> []" by auto
  from applyLoop_world [of toLen ?toApply "loadProfile w" jid "copyBackup w"] obtain es where
      es: "events ?w2 = events (copyBackup w) @ es" "BackupCopied \<notin> set es"
      and bf: "backupFile ?w2 = backupFile (copyBackup w)"
    by (elim exE conjE)
  have e2: "events ?w2 = events w @ BackupCopied # es" using es(1) by (simp add: copyBackup_def)
  have b2: "backupFile ?w2 = profileFile w" using bf by (simp add: copyBackup_def)
  show ?thesis
  proof (cases "applyAll toLen ?toApply (loadProfile w)")
    case (Inl e)
    then have "snd (applyByIds toLen sel jid w) = ?w2"
      using sel by (simp add: applyByIds_loaded [OF load ne prof] Let_def)
    with e2 b2 es(2) show ?thesis by (simp add: newEvents_eq)
  next
    case (Inr p')
    then have w': "snd (applyByIds toLen sel jid w) = writeProfileAtomic p' ?w2"
      using sel by (simp add: applyByIds_loaded [OF load ne prof] Let_def)
    have "events (writeProfileAtomic p' ?w2) = events w @ BackupCopied # (es @ [ProfileWritten])"
      using e2 by (simp add: writeProfileAtomic_def)
    then have "newEvents w (writeProfileAtomic p' ?w2) = BackupCopied # (es @ [ProfileWritten])"
      by (rule newEvents_eq)
    moreover have "BackupCopied \<notin> set (es @ [ProfileWritten])" using es(2) by simp
    moreover have "backupFile (writeProfileAtomic p' ?w2) = profileFile w"
      using b2 by (simp add: writeProfileAtomic_def)
    ultimately show ?thesis unfolding w' by blast
  qed
qed

lemma applyByIds_nothing_selected:
  assumes load: "loadSuggestions jid w = Some data" and prof: "\<not> falsy (loadProfile w)"
    and sel: "filter (selected sel) (suggestions data) = []"
  shows "applyByIds toLen sel jid w
           = (Inr \<lparr>applied = [], skipped = map id' (suggestions data), backupCreated = False\<rparr>, w)"
proof (cases "suggestions data = []")
  case True
  with load have "applyByIds toLen sel jid w = (Inr emptyResult, w)"
    using applyByIds_no_suggestions [of jid w toLen sel] by blast
  with True show ?thesis by (simp add: emptyResult_def)
next
  case False
  have "filter (\<lambda>s. \<not> selected sel s) (suggestions data) = suggestions data"
    using sel by (simp add: filter_empty_conv filter_id_conv)
  then show ?thesis
    using sel by (simp add: applyByIds_loaded [OF load False prof] Let_def)
qed

lemma load_test: "loadSuggestions (Some ''__test__'') testWorld = Some TEST_SUGGESTIONS"
  by (simp add: loadSuggestions_def suggestionsDir_def testWorld_def)

lemma load_test_no_profile:
  "loadSuggestions (Some ''__test__'') testWorldNoProfile = Some TEST_SUGGESTIONS"
  by (simp add: loadSuggestions_def suggestionsDir_def testWorld_def testWorldNoProfile_def)

lemma truthy_test: "\<not> falsy (loadProfile testWorld)"
  by (simp add: loadProfile_def testWorld_def TEST_PROFILE_def)




text \<open>
  C5. In a call that has loaded the suggestions and the profile, the profile file is
  copied to the backup path exactly when some suggestion is selected and the profile file
  exists. When it is copied, the copy is the first thing the call does and the call
  makes no second one: every mutation of the profile in memory and the write of the
  profile file come after it, and the backup holds the profile file as it was before the
  call. The flag \<open>backupCreated\<close> of a result says whether the copy was made. When no
  suggestion is selected the flag is false, the call does nothing to the files, and the
  profile file is not written.
\<close>

theorem applyByIds_backup_once_before_mutation:
  assumes load: "loadSuggestions jid w = Some data" and prof: "\<not> falsy (loadProfile w)"
  shows "let toApply = filter (selected sel) (suggestions data);
             w' = snd (applyByIds toLen sel jid w)
         in (BackupCopied \<in> set (newEvents w w') \<longleftrightarrow> toApply \<noteq> [] \<and> existsProfile w)
          \<and> (toApply \<noteq> [] \<longrightarrow>
               (\<exists>rest. newEvents w w' = BackupCopied # rest \<and> BackupCopied \<notin> set rest)
               \<and> backupFile w' = profileFile w)
          \<and> (\<forall>r. fst (applyByIds toLen sel jid w) = Inr r \<longrightarrow>
               backupCreated r = (BackupCopied \<in> set (newEvents w w')))
          \<and> (toApply = [] \<longrightarrow>
               (\<exists>r. fst (applyByIds toLen sel jid w) = Inr r \<and> \<not> backupCreated r)
               \<and> newEvents w w' = [] \<and> profileFile w' = profileFile w
               \<and> backupFile w' = backupFile w)"
proof (cases "filter (selected sel) (suggestions data) = []")
  case True
  have ex: "existsProfile w" using prof by (rule truthy_exists)
  have "applyByIds toLen sel jid w
           = (Inr \<lparr>applied = [], skipped = map id' (suggestions data), backupCreated = False\<rparr>, w)"
    using load prof True by (rule applyByIds_nothing_selected)
  with True show ?thesis by (simp add: Let_def newEvents_def)
next
  case False
  have ex: "existsProfile w" using prof by (rule truthy_exists)
  from applyByIds_backup_made [OF load prof False, of toLen] obtain rest where
      r: "newEvents w (snd (applyByIds toLen sel jid w)) = BackupCopied # rest"
      "BackupCopied \<notin> set rest"
      "backupFile (snd (applyByIds toLen sel jid w)) = profileFile w"
    by (elim exE conjE)
  have flag: "\<forall>r. fst (applyByIds toLen sel jid w) = Inr r \<longrightarrow> backupCreated r"
    using applyByIds_result [OF load] False by blast
  show ?thesis
    using False ex r flag by (simp add: Let_def)
qed

text \<open>
  C5, at the test that applies suggestion 1: the backup is made first, once, and holds
  the test profile.
\<close>

theorem applyByIds_backup_once_before_mutation_witness:
  "(\<exists>rest. newEvents testWorld (snd (applyByIds noLength (Ids [1]) (Some ''__test__'') testWorld))
              = BackupCopied # rest \<and> BackupCopied \<notin> set rest)
   \<and> backupFile (snd (applyByIds noLength (Ids [1]) (Some ''__test__'') testWorld))
       = Content TEST_PROFILE"
proof -
  have sel: "filter (selected (Ids [1])) (suggestions TEST_SUGGESTIONS) \<noteq> []"
    by (simp add: TEST_SUGGESTIONS_def)
  have pf: "profileFile testWorld = Content TEST_PROFILE" by (simp add: testWorld_def)
  from applyByIds_backup_once_before_mutation [OF load_test truthy_test, of "Ids [1]" noLength]
  show ?thesis using sel pf by (simp add: Let_def)
qed

text \<open>
  C6. Without a suggestions file (missing or not parseable), and with one that has no
  suggestion, \<open>applyByIds\<close> returns the empty result with \<open>backupCreated\<close> false
  and leaves every file as it is, the profile included, and raises nothing. With a
  suggestion selected and the profile file missing, the call ends with the error whose
  message names the remedy, and changes no file.
\<close>

theorem applyByIds_no_suggestions_or_no_profile:
  "(loadSuggestions jid w = None
      \<or> (\<exists>data. loadSuggestions jid w = Some data \<and> suggestions data = [])
    \<longrightarrow> applyByIds toLen sel jid w
          = (Inr \<lparr>applied = [], skipped = [], backupCreated = False\<rparr>, w))
   \<and> (\<forall>data. loadSuggestions jid w = Some data
          \<and> filter (selected sel) (suggestions data) \<noteq> [] \<and> profileFile w = Missing
        \<longrightarrow> applyByIds toLen sel jid w
              = (Inl (Error ''No profile found. Run `profile init` to create one.''), w))"
proof (intro conjI allI impI)
  assume "loadSuggestions jid w = None
      \<or> (\<exists>data. loadSuggestions jid w = Some data \<and> suggestions data = [])"
  then show "applyByIds toLen sel jid w
          = (Inr \<lparr>applied = [], skipped = [], backupCreated = False\<rparr>, w)"
    using applyByIds_no_suggestions [of jid w toLen sel] by (simp add: emptyResult_def)
next
  fix data
  assume a: "loadSuggestions jid w = Some data
          \<and> filter (selected sel) (suggestions data) \<noteq> [] \<and> profileFile w = Missing"
  then have ne: "suggestions data \<noteq> []" by auto
  from a have "falsy (loadProfile w)" by (simp add: unloadable_falsy)
  with a ne show "applyByIds toLen sel jid w
              = (Inl (Error ''No profile found. Run `profile init` to create one.''), w)"
    using applyByIds_no_profile [of jid w data toLen sel] by (simp add: noProfileMessage_def)
qed

text \<open>
  C6, with the namespace \<open>__fake__\<close> that has no suggestions file, and with the
  suggestions of the tests after the profile file has been removed.
\<close>

theorem applyByIds_no_suggestions_or_no_profile_witness:
  "applyByIds noLength All (Some ''__fake__'') testWorld
     = (Inr \<lparr>applied = [], skipped = [], backupCreated = False\<rparr>, testWorld)
   \<and> applyByIds noLength (Ids [1]) (Some ''__test__'') testWorldNoProfile
     = (Inl (Error ''No profile found. Run `profile init` to create one.''), testWorldNoProfile)"
proof
  have "loadSuggestions (Some ''__fake__'') testWorld = None"
    by (simp add: loadSuggestions_def suggestionsDir_def testWorld_def)
  then show "applyByIds noLength All (Some ''__fake__'') testWorld
     = (Inr \<lparr>applied = [], skipped = [], backupCreated = False\<rparr>, testWorld)"
    using applyByIds_no_suggestions_or_no_profile [of "Some ''__fake__''" testWorld noLength All]
    by blast
next
  have "filter (selected (Ids [1])) (suggestions TEST_SUGGESTIONS) \<noteq> []"
    by (simp add: TEST_SUGGESTIONS_def)
  moreover have "profileFile testWorldNoProfile = Missing"
    by (simp add: testWorldNoProfile_def)
  ultimately show "applyByIds noLength (Ids [1]) (Some ''__test__'') testWorldNoProfile
     = (Inl (Error ''No profile found. Run `profile init` to create one.''), testWorldNoProfile)"
    using load_test_no_profile
      applyByIds_no_suggestions_or_no_profile
        [of "Some ''__test__''" testWorldNoProfile noLength "Ids [1]"]
    by blast
qed

text \<open>
  C10. When the suggestions file holds at least one suggestion and the profile file is
  missing or does not parse, \<open>applyByIds\<close> ends with the error
  \<open>No profile found\<close> whatever the ids are, also when they select no suggestion; no
  file is changed. The profile is loaded before the suggestions are partitioned.
\<close>

theorem applyByIds_profile_loaded_first:
  "loadSuggestions jid w = Some data \<and> suggestions data \<noteq> []
     \<and> (profileFile w = Missing \<or> profileFile w = Unparseable)
   \<longrightarrow> (\<forall>sel. applyByIds toLen sel jid w
              = (Inl (Error ''No profile found. Run `profile init` to create one.''), w))"
proof (intro impI allI)
  fix sel
  assume a: "loadSuggestions jid w = Some data \<and> suggestions data \<noteq> []
     \<and> (profileFile w = Missing \<or> profileFile w = Unparseable)"
  then have "falsy (loadProfile w)" by (simp add: unloadable_falsy)
  with a show "applyByIds toLen sel jid w
              = (Inl (Error ''No profile found. Run `profile init` to create one.''), w)"
    using applyByIds_no_profile [of jid w data toLen sel] by (simp add: noProfileMessage_def)
qed

text \<open>
  C10, with the id 999 that no suggestion of the tests has, and no profile file.
\<close>

theorem applyByIds_profile_loaded_first_witness:
  "applyByIds noLength (Ids [999]) (Some ''__test__'') testWorldNoProfile
     = (Inl (Error ''No profile found. Run `profile init` to create one.''), testWorldNoProfile)
   \<and> filter (selected (Ids [999])) (suggestions TEST_SUGGESTIONS) = []"
proof
  have "suggestions TEST_SUGGESTIONS \<noteq> []" by (simp add: TEST_SUGGESTIONS_def)
  moreover have "profileFile testWorldNoProfile = Missing"
    by (simp add: testWorldNoProfile_def)
  ultimately show "applyByIds noLength (Ids [999]) (Some ''__test__'') testWorldNoProfile
     = (Inl (Error ''No profile found. Run `profile init` to create one.''), testWorldNoProfile)"
    using load_test_no_profile
      applyByIds_profile_loaded_first
        [of "Some ''__test__''" testWorldNoProfile TEST_SUGGESTIONS noLength]
    by blast
next
  show "filter (selected (Ids [999])) (suggestions TEST_SUGGESTIONS) = []"
    by (simp add: TEST_SUGGESTIONS_def)
qed


end
